theory Spec2Isabelle
  imports Complex_Main "HOL-Library.Multiset" "HOL-Library.Log_Nat"
begin

section \<open>Text primitives of the symptom analyzer\<close>

text \<open>
  Python strings are modelled as \<open>string\<close>. A text outside ASCII is carried as its UTF-8
  bytes; substring search and replacement on valid UTF-8 agree with the same operations on
  code points.

  \<^verbatim>\<open>str.lower\<close> follows the Unicode case mapping (the Kelvin sign becomes \<open>k\<close>, a capital
  I with a dot becomes two code points). It is not redefined here: the functions that call
  it take it as their first parameter \<open>lower\<close>, and what is proved about them holds for
  every \<open>lower\<close>. On a text of ASCII characters \<^verbatim>\<open>str.lower\<close> changes the letters A to Z
  and nothing else; this is \<open>ascii_lower\<close>, which takes the place of \<open>lower\<close> in the
  examples, all of them ASCII texts.
\<close>

definition lower_char :: "char \<Rightarrow> char" where
  "lower_char c =
     (case map_of (zip ''ABCDEFGHIJKLMNOPQRSTUVWXYZ'' ''abcdefghijklmnopqrstuvwxyz'') c of
        Some d \<Rightarrow> d
      | None \<Rightarrow> c)"

definition ascii_lower :: "string \<Rightarrow> string" where
  "ascii_lower s = map lower_char s"

fun starts_with :: "string \<Rightarrow> string \<Rightarrow> bool" where
  "starts_with s [] = True"
| "starts_with [] (k # ks) = False"
| "starts_with (c # cs) (k # ks) = (c = k \<and> starts_with cs ks)"

text \<open>\<open>str_in k s\<close> is Python's \<^verbatim>\<open>k in s\<close> on strings: \<open>k\<close> occurs in \<open>s\<close> as a substring.\<close>

fun str_in :: "string \<Rightarrow> string \<Rightarrow> bool" where
  "str_in k [] = (k = [])"
| "str_in k (c # cs) = (starts_with (c # cs) k \<or> str_in k cs)"

text \<open>
  \<^verbatim>\<open>s.split()\<close>: the maximal runs of characters that are not whitespace. The analyzer
  splits the phrases of its keyword table only, which are ASCII, so \<open>is_space\<close> lists the
  ASCII whitespace.
\<close>

definition is_space :: "char \<Rightarrow> bool" where
  "is_space c = (c \<in> set [CHR '' '', CHR 0x09, CHR 0x0A, CHR 0x0B, CHR 0x0C, CHR 0x0D,
                           CHR 0x1C, CHR 0x1D, CHR 0x1E, CHR 0x1F])"

fun split_from :: "string \<Rightarrow> string \<Rightarrow> string list" where
  "split_from w [] = (if w = [] then [] else [w])"
| "split_from w (c # cs) =
     (if is_space c then (if w = [] then split_from [] cs else w # split_from [] cs)
      else split_from (w @ [c]) cs)"

definition str_split :: "string \<Rightarrow> string list" where
  "str_split s = split_from [] s"

text \<open>\<^verbatim>\<open>s.replace(old, new)\<close>: every occurrence of \<open>old\<close>, leftmost first, without overlap.\<close>

fun replace_from :: "string \<Rightarrow> string \<Rightarrow> string \<Rightarrow> string" where
  "replace_from old new [] = []"
| "replace_from old new (c # cs) =
     (if starts_with (c # cs) old then new @ replace_from old new (drop (length old - 1) cs)
      else c # replace_from old new cs)"

definition str_replace :: "string \<Rightarrow> string \<Rightarrow> string \<Rightarrow> string" where
  "str_replace s old new =
     (if old = [] then new @ concat (map (\<lambda>c. c # new) s) else replace_from old new s)"

section \<open>Numbers\<close>

text \<open>
  A Python float is an IEEE 754 double, modelled by the rational number that it denotes.
  \<open>float_round x\<close> is the double nearest to \<open>x\<close>: with \<open>2 ^ e \<le> \<bar>x\<bar> < 2 ^ (e + 1)\<close> the
  doubles around \<open>x\<close> are the multiples of \<open>2 ^ (e - 52)\<close> (53 significant bits), and a tie
  goes to the even multiple. An operation on floats gives the exact result rounded by
  \<open>float_round\<close>. Infinities, NaN and subnormal numbers are outside the model: the numbers
  of the program are distances, ratings and scores.
\<close>

definition round_half_even :: "rat \<Rightarrow> int" where
  "round_half_even x =
     (let f = \<lfloor>x\<rfloor>; r = x - of_int f
      in if r < 1 / 2 then f else if 1 / 2 < r then f + 1 else if even f then f else f + 1)"

definition pow2 :: "int \<Rightarrow> rat" where
  "pow2 e = (if 0 \<le> e then 2 ^ nat e else 1 / 2 ^ nat (- e))"

text \<open>
  The exponent \<open>e\<close> with \<open>2 ^ e \<le> \<bar>x\<bar> < 2 ^ (e + 1)\<close>, for \<open>x \<noteq> 0\<close>; \<open>bitlen n\<close> is the number
  of binary digits of \<open>n\<close>.
\<close>

definition float_exponent :: "rat \<Rightarrow> int" where
  "float_exponent x =
     (let a = \<bar>x\<bar>
      in if 1 \<le> a then bitlen \<lfloor>a\<rfloor> - 1 else - bitlen (\<lceil>1 / a\<rceil> - 1))"

definition float_round :: "rat \<Rightarrow> rat" where
  "float_round x =
     (if x = 0 then 0
      else (let ulp = pow2 (float_exponent x - 52)
            in of_int (round_half_even (x / ulp)) * ulp))"

definition float_add :: "rat \<Rightarrow> rat \<Rightarrow> rat" where
  "float_add x y = float_round (x + y)"

definition float_mul :: "rat \<Rightarrow> rat \<Rightarrow> rat" where
  "float_mul x y = float_round (x * y)"

text \<open>The divisors of the program are the constants 25, 5.0 and 10.0.\<close>

definition float_div :: "rat \<Rightarrow> rat \<Rightarrow> rat" where
  "float_div x y = float_round (x / y)"

text \<open>
  \<^verbatim>\<open>round(x, n)\<close> on a float: the value of \<open>x\<close> rounded to \<open>n\<close> decimal places, a tie going
  to the even neighbour, then the double nearest to that decimal number. \<^verbatim>\<open>int(x)\<close>
  truncates towards zero.
\<close>

definition py_round :: "rat \<Rightarrow> nat \<Rightarrow> rat" where
  "py_round x ndigits =
     float_round (of_int (round_half_even (x * 10 ^ ndigits)) / 10 ^ ndigits)"

definition py_int :: "rat \<Rightarrow> int" where
  "py_int x = (if 0 \<le> x then \<lfloor>x\<rfloor> else - \<lfloor>- x\<rfloor>)"

section \<open>The tables of \<open>SymptomAnalyzer\<close>\<close>

text \<open>
  A Python dict keeps its keys in insertion order, and the analyzer iterates over them, so
  each dict is an association list in the order of the source.
\<close>

definition medical_keywords :: "(string \<times> string list) list" where
  "medical_keywords =
    [(''cardiovascular'',
        [''chest pain'', ''heart attack'', ''cardiac'', ''palpitations'', ''angina'',
         ''shortness of breath'', ''irregular heartbeat'', ''heart pounding'',
         ''chest pressure'', ''heart racing'', ''cardiovascular'']),
     (''respiratory'',
        [''breathing'', ''cough'', ''asthma'', ''pneumonia'', ''bronchitis'',
         ''wheezing'', ''respiratory'', ''lung'', ''breathless'', ''dyspnea'',
         ''chest congestion'', ''difficulty breathing'']),
     (''neurological'',
        [''headache'', ''migraine'', ''seizure'', ''stroke'', ''paralysis'',
         ''numbness'', ''tingling'', ''dizziness'', ''vertigo'', ''confusion'',
         ''memory loss'', ''neurological'', ''brain'', ''nerve pain'']),
     (''gastrointestinal'',
        [''stomach pain'', ''abdominal pain'', ''nausea'', ''vomiting'', ''diarrhea'',
         ''constipation'', ''digestive'', ''gastric'', ''intestinal'', ''bowel'',
         ''food poisoning'', ''indigestion'', ''acid reflux'']),
     (''orthopedic'',
        [''bone'', ''fracture'', ''joint pain'', ''back pain'', ''spinal'',
         ''arthritis'', ''muscle pain'', ''sprain'', ''strain'', ''orthopedic'',
         ''knee pain'', ''shoulder pain'', ''hip pain'']),
     (''infectious'',
        [''fever'', ''infection'', ''flu'', ''cold'', ''viral'', ''bacterial'',
         ''malaria'', ''dengue'', ''typhoid'', ''chills'', ''sweating'',
         ''body ache'', ''fatigue'']),
     (''emergency'',
        [''accident'', ''injury'', ''bleeding'', ''trauma'', ''burn'', ''wound'',
         ''fall'', ''crash'', ''emergency'', ''severe pain'', ''unconscious'',
         ''heavy bleeding'', ''deep cut'']),
     (''pediatric'',
        [''child'', ''baby'', ''infant'', ''kid'', ''pediatric'', ''newborn'',
         ''toddler'', ''childhood'']),
     (''gynecological'',
        [''pregnancy'', ''prenatal'', ''delivery'', ''gynecological'', ''menstrual'',
         ''obstetric'', ''pregnant'', ''labor'', ''gynecology'']),
     (''dermatology'',
        [''skin'', ''rash'', ''allergy'', ''itch'', ''dermatology'', ''acne'',
         ''eczema'', ''psoriasis'', ''skin infection'', ''hives'']),
     (''ophthalmology'',
        [''eye'', ''vision'', ''blind'', ''ophthalmology'', ''visual'', ''sight'',
         ''eye pain'', ''blurred vision'', ''eye infection'']),
     (''ent'',
        [''ear'', ''nose'', ''throat'', ''ent'', ''hearing'', ''sinus'', ''tonsil'',
         ''ear pain'', ''sore throat'', ''nasal'', ''hearing loss'']),
     (''general'',
        [''general'', ''checkup'', ''consultation'', ''medical'', ''health'',
         ''wellness'', ''screening''])]"

definition specialty_rules :: "(string \<times> string) list" where
  "specialty_rules =
    [(''cardiovascular'', ''Cardiology''),
     (''respiratory'', ''Pulmonology''),
     (''neurological'', ''Neurology''),
     (''gastrointestinal'', ''Gastroenterology''),
     (''orthopedic'', ''Orthopedics''),
     (''infectious'', ''Infectious Disease''),
     (''emergency'', ''Emergency Medicine''),
     (''pediatric'', ''Pediatrics''),
     (''gynecological'', ''Obstetrics & Gynecology''),
     (''dermatology'', ''Dermatology''),
     (''ophthalmology'', ''Ophthalmology''),
     (''ent'', ''ENT''),
     (''general'', ''General Medicine'')]"

text \<open>
  \<^verbatim>\<open>priority_rules\<close> is read at the two keys \<^verbatim>\<open>'critical'\<close> and \<^verbatim>\<open>'urgent'\<close> only
  (the list at \<^verbatim>\<open>'normal'\<close> is empty and never read).
\<close>

definition priority_rules_critical :: "string list" where
  "priority_rules_critical =
    [''heart attack'', ''stroke'', ''unconscious'', ''heavy bleeding'',
     ''severe bleeding'', ''can'' @ [CHR 0x27] @ ''t breathe'', ''chest pain'', ''paralysis'',
     ''severe burns'', ''head injury'', ''poisoning'', ''seizure'']"

definition priority_rules_urgent :: "string list" where
  "priority_rules_urgent =
    [''severe pain'', ''high fever'', ''difficulty breathing'', ''vomiting blood'',
     ''severe headache'', ''abdominal pain'', ''accident'', ''injury'',
     ''deep cut'', ''broken bone'', ''very dizzy'']"

text \<open>The substitution tables of \<^verbatim>\<open>_translate_symptoms\<close>, the native words as UTF-8 bytes.\<close>

definition translations_hi :: "(string \<times> string) list" where
  "translations_hi =
    [([CHR 0xE0, CHR 0xA4, CHR 0xAC, CHR 0xE0, CHR 0xA5, CHR 0x81, CHR 0xE0, CHR 0xA4, CHR 0x96,
       CHR 0xE0, CHR 0xA4, CHR 0xBE, CHR 0xE0, CHR 0xA4, CHR 0xB0], ''fever''),
     ([CHR 0xE0, CHR 0xA4, CHR 0xB8, CHR 0xE0, CHR 0xA4, CHR 0xBF, CHR 0xE0, CHR 0xA4, CHR 0xB0,
       CHR 0xE0, CHR 0xA4, CHR 0xA6, CHR 0xE0, CHR 0xA4, CHR 0xB0, CHR 0xE0, CHR 0xA5, CHR 0x8D,
       CHR 0xE0, CHR 0xA4, CHR 0xA6], ''headache''),
     ([CHR 0xE0, CHR 0xA4, CHR 0xA6, CHR 0xE0, CHR 0xA4, CHR 0xB0, CHR 0xE0, CHR 0xA5, CHR 0x8D,
       CHR 0xE0, CHR 0xA4, CHR 0xA6], ''pain''),
     ([CHR 0xE0, CHR 0xA4, CHR 0xAA, CHR 0xE0, CHR 0xA5, CHR 0x87, CHR 0xE0, CHR 0xA4, CHR 0x9F],
       ''stomach''),
     ([CHR 0xE0, CHR 0xA4, CHR 0x96, CHR 0xE0, CHR 0xA4, CHR 0xBE, CHR 0xE0, CHR 0xA4, CHR 0x82,
       CHR 0xE0, CHR 0xA4, CHR 0xB8, CHR 0xE0, CHR 0xA5, CHR 0x80], ''cough''),
     ([CHR 0xE0, CHR 0xA4, CHR 0xB8, CHR 0xE0, CHR 0xA4, CHR 0xBE, CHR 0xE0, CHR 0xA4, CHR 0x82,
       CHR 0xE0, CHR 0xA4, CHR 0xB8], ''breathing''),
     ([CHR 0xE0, CHR 0xA4, CHR 0x9A, CHR 0xE0, CHR 0xA4, CHR 0x95, CHR 0xE0, CHR 0xA5, CHR 0x8D,
       CHR 0xE0, CHR 0xA4, CHR 0x95, CHR 0xE0, CHR 0xA4, CHR 0xB0], ''dizziness''),
     ([CHR 0xE0, CHR 0xA4, CHR 0x95, CHR 0xE0, CHR 0xA4, CHR 0xAE, CHR 0xE0, CHR 0xA4, CHR 0x9C,
       CHR 0xE0, CHR 0xA5, CHR 0x8B, CHR 0xE0, CHR 0xA4, CHR 0xB0, CHR 0xE0, CHR 0xA5, CHR 0x80],
       ''weakness''),
     ([CHR 0xE0, CHR 0xA4, CHR 0x89, CHR 0xE0, CHR 0xA4, CHR 0xB2, CHR 0xE0, CHR 0xA5, CHR 0x8D,
       CHR 0xE0, CHR 0xA4, CHR 0x9F, CHR 0xE0, CHR 0xA5, CHR 0x80], ''vomiting'')]"

definition translations_te :: "(string \<times> string) list" where
  "translations_te =
    [([CHR 0xE0, CHR 0xB0, CHR 0x9C, CHR 0xE0, CHR 0xB1, CHR 0x8D, CHR 0xE0, CHR 0xB0, CHR 0xB5,
       CHR 0xE0, CHR 0xB0, CHR 0xB0, CHR 0xE0, CHR 0xB0, CHR 0x82], ''fever''),
     ([CHR 0xE0, CHR 0xB0, CHR 0xA4, CHR 0xE0, CHR 0xB0, CHR 0xB2, CHR 0xE0, CHR 0xB0, CHR 0xA8,
       CHR 0xE0, CHR 0xB1, CHR 0x8A, CHR 0xE0, CHR 0xB0, CHR 0xAA, CHR 0xE0, CHR 0xB1, CHR 0x8D,
       CHR 0xE0, CHR 0xB0, CHR 0xAA, CHR 0xE0, CHR 0xB0, CHR 0xBF], ''headache''),
     ([CHR 0xE0, CHR 0xB0, CHR 0xA8, CHR 0xE0, CHR 0xB1, CHR 0x8A, CHR 0xE0, CHR 0xB0, CHR 0xAA,
       CHR 0xE0, CHR 0xB1, CHR 0x8D, CHR 0xE0, CHR 0xB0, CHR 0xAA, CHR 0xE0, CHR 0xB0, CHR 0xBF],
       ''pain''),
     ([CHR 0xE0, CHR 0xB0, CHR 0x95, CHR 0xE0, CHR 0xB0, CHR 0xA1, CHR 0xE0, CHR 0xB1, CHR 0x81,
       CHR 0xE0, CHR 0xB0, CHR 0xAA, CHR 0xE0, CHR 0xB1, CHR 0x81], ''stomach''),
     ([CHR 0xE0, CHR 0xB0, CHR 0xA6, CHR 0xE0, CHR 0xB0, CHR 0x97, CHR 0xE0, CHR 0xB1, CHR 0x8D,
       CHR 0xE0, CHR 0xB0, CHR 0x97, CHR 0xE0, CHR 0xB1, CHR 0x81], ''cough''),
     ([CHR 0xE0, CHR 0xB0, CHR 0xB6, CHR 0xE0, CHR 0xB1, CHR 0x8D, CHR 0xE0, CHR 0xB0, CHR 0xB5,
       CHR 0xE0, CHR 0xB0, CHR 0xBE, CHR 0xE0, CHR 0xB0, CHR 0xB8], ''breathing''),
     ([CHR 0xE0, CHR 0xB0, CHR 0xA4, CHR 0xE0, CHR 0xB0, CHR 0xB2, CHR 0xE0, CHR 0xB0, CHR 0xA4,
       CHR 0xE0, CHR 0xB0, CHR 0xBF, CHR 0xE0, CHR 0xB0, CHR 0xB0, CHR 0xE0, CHR 0xB0, CHR 0x97,
       CHR 0xE0, CHR 0xB0, CHR 0xA1, CHR 0xE0, CHR 0xB0, CHR 0x82], ''dizziness''),
     ([CHR 0xE0, CHR 0xB0, CHR 0xAC, CHR 0xE0, CHR 0xB0, CHR 0xB2, CHR 0xE0, CHR 0xB0, CHR 0xB9,
       CHR 0xE0, CHR 0xB1, CHR 0x80, CHR 0xE0, CHR 0xB0, CHR 0xA8, CHR 0xE0, CHR 0xB0, CHR 0xA4],
       ''weakness''),
     ([CHR 0xE0, CHR 0xB0, CHR 0xB5, CHR 0xE0, CHR 0xB0, CHR 0xBE, CHR 0xE0, CHR 0xB0, CHR 0x82,
       CHR 0xE0, CHR 0xB0, CHR 0xA4, CHR 0xE0, CHR 0xB1, CHR 0x81, CHR 0xE0, CHR 0xB0, CHR 0xB2,
       CHR 0xE0, CHR 0xB1, CHR 0x81], ''vomiting'')]"

definition translations_dict :: "(string \<times> (string \<times> string) list) list" where
  "translations_dict = [(''hi'', translations_hi), (''te'', translations_te)]"

section \<open>\<open>SymptomAnalyzer\<close>\<close>

text \<open>\<^verbatim>\<open>_translate_symptoms\<close>: an unknown language leaves the text as it is.\<close>

definition translate_symptoms :: "string \<Rightarrow> string \<Rightarrow> string" where
  "translate_symptoms symptoms language =
     (case map_of translations_dict language of
        Some table \<Rightarrow>
          fold (\<lambda>(native_word, english_word) s. str_replace s native_word english_word)
               table symptoms
      | None \<Rightarrow> symptoms)"

text \<open>
  \<^verbatim>\<open>_score_categories\<close>. The inner loop adds 3 for a keyword found whole and otherwise 1
  when one of its words is found; the outer loop stores the score of a category under its
  name when the score is positive.
\<close>

definition keyword_step :: "string \<Rightarrow> string \<Rightarrow> int \<Rightarrow> int" where
  "keyword_step symptoms keyword score =
     (if str_in keyword symptoms then score + 3
      else if list_ex (\<lambda>word. str_in word symptoms) (str_split keyword) then score + 1
      else score)"

fun keywords_loop :: "string \<Rightarrow> string list \<Rightarrow> int \<Rightarrow> int" where
  "keywords_loop symptoms [] score = score"
| "keywords_loop symptoms (keyword # keywords) score =
     keywords_loop symptoms keywords (keyword_step symptoms keyword score)"

text \<open>\<^verbatim>\<open>d[k] = v\<close> on an insertion-ordered dict.\<close>

fun dict_set :: "('k \<times> 'v) list \<Rightarrow> 'k \<Rightarrow> 'v \<Rightarrow> ('k \<times> 'v) list" where
  "dict_set [] k v = [(k, v)]"
| "dict_set ((k', v') # d) k v = (if k' = k then (k, v) # d else (k', v') # dict_set d k v)"

fun categories_loop ::
  "string \<Rightarrow> (string \<times> string list) list \<Rightarrow> (string \<times> int) list \<Rightarrow> (string \<times> int) list" where
  "categories_loop symptoms [] scores = scores"
| "categories_loop symptoms ((category, keywords) # rest) scores =
     (let score = keywords_loop symptoms keywords 0
      in categories_loop symptoms rest
           (if score > 0 then dict_set scores category score else scores))"

definition score_categories :: "string \<Rightarrow> (string \<times> int) list" where
  "score_categories symptoms = categories_loop symptoms medical_keywords []"

text \<open>\<^verbatim>\<open>_determine_priority\<close>: the first list with a keyword in the text decides.\<close>

fun any_keyword_in :: "string list \<Rightarrow> string \<Rightarrow> bool" where
  "any_keyword_in [] symptoms = False"
| "any_keyword_in (keyword # keywords) symptoms =
     (if str_in keyword symptoms then True else any_keyword_in keywords symptoms)"

definition determine_priority :: "string \<Rightarrow> string" where
  "determine_priority symptoms =
     (if any_keyword_in priority_rules_critical symptoms then ''critical''
      else if any_keyword_in priority_rules_urgent symptoms then ''urgent''
      else ''normal'')"

text \<open>
  \<^verbatim>\<open>max(items, key=...)\<close> keeps the first item whose key is the greatest: a later item
  replaces the best one only when its key is strictly greater.
\<close>

fun max_from :: "('a \<Rightarrow> int) \<Rightarrow> 'a \<Rightarrow> 'a list \<Rightarrow> 'a" where
  "max_from key best [] = best"
| "max_from key best (x # xs) = max_from key (if key best < key x then x else best) xs"

record analysis =
  category :: string
  specialty :: string
  priority :: string
  confidence :: rat
  raw_scores :: "(string \<times> int) list"

text \<open>
  The text after lowercasing and translation, on which both scans run; \<open>lower\<close> is
  \<^verbatim>\<open>str.lower\<close>.
\<close>

definition normalized :: "(string \<Rightarrow> string) \<Rightarrow> string \<Rightarrow> string \<Rightarrow> string" where
  "normalized lower symptoms language =
     (let symptoms_lower = lower symptoms
      in if language \<noteq> ''en'' then translate_symptoms symptoms_lower language
         else symptoms_lower)"

text \<open>
  \<^verbatim>\<open>analyze\<close>. The confidence \<^verbatim>\<open>min(top_category[1] / 10.0, 1.0)\<close> is a division of
  floats.
\<close>

definition analyze :: "(string \<Rightarrow> string) \<Rightarrow> string \<Rightarrow> string \<Rightarrow> analysis" where
  "analyze lower symptoms language =
     (let symptoms_lower = normalized lower symptoms language;
          category_scores = score_categories symptoms_lower;
          priority = determine_priority symptoms_lower;
          (category, confidence) =
            (case category_scores of
               item # items \<Rightarrow>
                 (let top_category = max_from snd item items
                  in (fst top_category, min (float_div (of_int (snd top_category)) 10) 1))
             | [] \<Rightarrow> (''general'', 1 / 2));
          specialty =
            (case map_of specialty_rules category of
               Some s \<Rightarrow> s
             | None \<Rightarrow> ''General Medicine'')
      in \<lparr>category = category, specialty = specialty, priority = priority,
          confidence = confidence, raw_scores = category_scores\<rparr>)"

section \<open>Sorting and splitting\<close>

text \<open>
  \<^verbatim>\<open>list.sort(key=..., reverse=...)\<close> is stable; with \<^verbatim>\<open>reverse=True\<close> the list is
  reversed, sorted and reversed again, so that equal keys keep their order.
\<close>

definition list_sort :: "('a \<Rightarrow> 'k::linorder) \<Rightarrow> bool \<Rightarrow> 'a list \<Rightarrow> 'a list" where
  "list_sort key reverse xs = (if reverse then rev (sort_key key (rev xs)) else sort_key key xs)"

text \<open>\<^verbatim>\<open>s.split(',')\<close>: the pieces between the separators, empty pieces kept.\<close>

fun split_on_from :: "char \<Rightarrow> string \<Rightarrow> string \<Rightarrow> string list" where
  "split_on_from sep w [] = [w]"
| "split_on_from sep w (c # cs) =
     (if c = sep then w # split_on_from sep [] cs else split_on_from sep (w @ [c]) cs)"

definition str_split_on :: "char \<Rightarrow> string \<Rightarrow> string list" where
  "str_split_on sep s = split_on_from sep [] s"

section \<open>\<open>HospitalService\<close>\<close>

text \<open>
  A row of the table \<^verbatim>\<open>hospitals\<close> carries \<open>specialties\<close> and \<open>facilities\<close> as
  comma-separated text (\<open>'s = string\<close>, a NULL read as the empty text: both are falsy);
  the dict made from it carries them as lists (\<open>'s = string list\<close>). The column
  \<^verbatim>\<open>id\<close> is the field \<open>row_id\<close>.
\<close>

record 's hospital =
  row_id :: int
  name :: string
  latitude :: rat
  longitude :: rat
  address :: string
  phone :: string
  email :: string
  rating :: rat
  total_reviews :: int
  has_emergency :: bool
  has_ambulance :: bool
  specialties :: 's
  facilities :: 's
  open_247 :: bool

type_synonym hospital_row = "string hospital"

text \<open>
  The dict of a hospital: the columns and the keys that \<^verbatim>\<open>find_nearby_hospitals\<close> adds;
  \<open>total_score\<close> is \<open>None\<close> until \<^verbatim>\<open>score_hospitals\<close> sets the key.
\<close>

record hospital_dict = "string list hospital" +
  distance_km :: rat
  travel_time_minutes :: int
  specialty_match :: bool
  total_score :: "rat option"

text \<open>\<^verbatim>\<open>_calculate_travel_time\<close>\<close>

definition calculate_travel_time :: "rat \<Rightarrow> int" where
  "calculate_travel_time dist_km =
     (let avg_speed_kmh = 25;
          travel_time_hours = float_div dist_km avg_speed_kmh;
          travel_time_minutes = py_int (float_mul travel_time_hours 60)
      in max travel_time_minutes 5)"

text \<open>
  The query of \<^verbatim>\<open>find_nearby_hospitals\<close> on the rows of the table: for a critical
  priority the hospitals with an emergency room that are always open, for an urgent one
  those with an emergency room, otherwise all.
\<close>

definition query_hospitals :: "hospital_row list \<Rightarrow> string \<Rightarrow> hospital_row list" where
  "query_hospitals table prio =
     (if prio = ''critical'' then filter (\<lambda>r. has_emergency r \<and> open_247 r) table
      else if prio = ''urgent'' then filter has_emergency table
      else table)"

text \<open>
  The body of the loop of \<^verbatim>\<open>find_nearby_hospitals\<close> for a hospital within the radius:
  the dict of the row with the rounded distance, the travel time of the distance as
  computed, the two lists and the specialty match (true when no specialty is asked for); \<open>lower\<close>
  is \<^verbatim>\<open>str.lower\<close>.
\<close>

definition split_list :: "string \<Rightarrow> string list" where
  "split_list text = (if text \<noteq> [] then str_split_on CHR '','' text else [])"

definition hospital_dict_of ::
  "(string \<Rightarrow> string) \<Rightarrow> string option \<Rightarrow> hospital_row \<Rightarrow> rat \<Rightarrow> hospital_dict" where
  "hospital_dict_of lower required_specialty hospital distance =
     (let specialties_list = split_list (specialties hospital);
          facilities_list = split_list (facilities hospital);
          match =
            (case required_specialty of
               None \<Rightarrow> True
             | Some sp \<Rightarrow>
                 if sp \<noteq> [] then list_ex (\<lambda>s. str_in (lower sp) (lower s)) specialties_list
                 else True)
      in \<lparr>row_id = row_id hospital, name = name hospital, latitude = latitude hospital,
          longitude = longitude hospital, address = address hospital, phone = phone hospital,
          email = email hospital, rating = rating hospital,
          total_reviews = total_reviews hospital, has_emergency = has_emergency hospital,
          has_ambulance = has_ambulance hospital, specialties = specialties_list,
          facilities = facilities_list, open_247 = open_247 hospital,
          distance_km = py_round distance 2,
          travel_time_minutes = calculate_travel_time distance,
          specialty_match = match, total_score = None\<rparr>)"

text \<open>
  \<^verbatim>\<open>geodesic\<close> is the distance function of the library geopy, a parameter here: it gives
  the kilometres between two locations or raises (\<open>Inl\<close>), and the loop passes the
  error on.
\<close>

fun nearby_loop ::
  "(string \<Rightarrow> string) \<Rightarrow> (rat \<times> rat \<Rightarrow> rat \<times> rat \<Rightarrow> 'e + rat) \<Rightarrow> rat \<times> rat \<Rightarrow>
   string option \<Rightarrow> rat \<Rightarrow> hospital_row list \<Rightarrow> hospital_dict list \<Rightarrow> 'e + hospital_dict list" where
  "nearby_loop lower geodesic user_location required_specialty max_distance_km []
     hospitals_with_distance =
     Inr hospitals_with_distance"
| "nearby_loop lower geodesic user_location required_specialty max_distance_km (hospital # rest)
     hospitals_with_distance =
     (let hospital_location = (latitude hospital, longitude hospital)
      in case geodesic user_location hospital_location of
           Inl e \<Rightarrow> Inl e
         | Inr distance \<Rightarrow>
             nearby_loop lower geodesic user_location required_specialty max_distance_km rest
               (if distance \<le> max_distance_km
                then hospitals_with_distance @
                       [hospital_dict_of lower required_specialty hospital distance]
                else hospitals_with_distance))"

definition find_nearby_hospitals ::
  "(string \<Rightarrow> string) \<Rightarrow> (rat \<times> rat \<Rightarrow> rat \<times> rat \<Rightarrow> 'e + rat) \<Rightarrow> hospital_row list \<Rightarrow>
   rat \<Rightarrow> rat \<Rightarrow> string option \<Rightarrow> string \<Rightarrow> rat \<Rightarrow> 'e + hospital_dict list" where
  "find_nearby_hospitals lower geodesic table lat lon required_specialty prio max_distance_km =
     (let all_hospitals = query_hospitals table prio
      in case nearby_loop lower geodesic (lat, lon) required_specialty max_distance_km
                all_hospitals [] of
           Inl e \<Rightarrow> Inl e
         | Inr hospitals_with_distance \<Rightarrow>
             Inr (list_sort distance_km False hospitals_with_distance))"

definition find_emergency_hospitals ::
  "(string \<Rightarrow> string) \<Rightarrow> (rat \<times> rat \<Rightarrow> rat \<times> rat \<Rightarrow> 'e + rat) \<Rightarrow> hospital_row list \<Rightarrow>
   rat \<Rightarrow> rat \<Rightarrow> rat \<Rightarrow> 'e + hospital_dict list" where
  "find_emergency_hospitals lower geodesic table lat lon max_distance_km =
     find_nearby_hospitals lower geodesic table lat lon None ''critical'' max_distance_km"

text \<open>
  \<^verbatim>\<open>score_hospitals\<close>: the score of one hospital, step by step as in the loop, then the
  key \<^verbatim>\<open>total_score\<close> set to the score rounded to one decimal, then the sort by
  \<^verbatim>\<open>total_score\<close>, greatest first. The score is an integer until the points of the
  rating, a float, are added; from there on every addition is one of floats.
\<close>

definition hospital_score :: "hospital_dict \<Rightarrow> string \<Rightarrow> rat" where
  "hospital_score hospital prio =
     (let score = 0;
          score = (if specialty_match hospital then score + 40
                   else if ''General Medicine'' \<in> set (specialties hospital) then score + 20
                   else score);
          distance = distance_km hospital;
          score = (if distance \<le> 5 then score + 30
                   else if distance \<le> 10 then score + 25
                   else if distance \<le> 20 then score + 15
                   else if distance \<le> 30 then score + 10
                   else score + 5);
          score = float_add score (float_mul (float_div (rating hospital) 5) 20);
          score = (if prio \<in> set [''critical'', ''urgent'']
                   then (let score = (if has_emergency hospital then float_add score 10
                                      else score)
                         in if has_ambulance hospital then float_add score 5 else score)
                   else score)
      in score)"

definition set_total_score :: "string \<Rightarrow> hospital_dict \<Rightarrow> hospital_dict" where
  "set_total_score prio hospital =
     hospital\<lparr>total_score := Some (py_round (hospital_score hospital prio) 1)\<rparr>"

text \<open>The sort key \<^verbatim>\<open>x['total_score']\<close>; every dict of the sorted list has the key.\<close>

definition total_score_key :: "hospital_dict \<Rightarrow> rat" where
  "total_score_key x = (case total_score x of Some s \<Rightarrow> s | None \<Rightarrow> 0)"

definition score_hospitals :: "hospital_dict list \<Rightarrow> analysis \<Rightarrow> hospital_dict list" where
  "score_hospitals hospitals analysis =
     (let scored_hospitals = map (set_total_score (priority analysis)) hospitals
      in list_sort total_score_key True scored_hospitals)"

section \<open>Definitions in the words of the specification\<close>

text \<open>
  A phrase gives 3 points when it occurs in the text, else 1 point when one of its words
  does, else none; the score of a category is the sum over its phrases; the raw scores are
  the categories of the table, in its order, whose score is positive.
\<close>

definition phrase_points :: "string \<Rightarrow> string \<Rightarrow> int" where
  "phrase_points text phrase =
     (if str_in phrase text then 3
      else if list_ex (\<lambda>word. str_in word text) (str_split phrase) then 1
      else 0)"

definition category_points :: "string \<Rightarrow> string list \<Rightarrow> int" where
  "category_points text phrases = sum_list (map (phrase_points text) phrases)"

definition positive_entries :: "string \<Rightarrow> (string \<times> string list) list \<Rightarrow> (string \<times> int) list" where
  "positive_entries text table =
     filter (\<lambda>(c, n). 0 < n) (map (\<lambda>(c, phrases). (c, category_points text phrases)) table)"

text \<open>
  The four components of the score of a hospital: the specialty, the distance tier, the
  rating and, for an urgent or critical priority, the readiness. \<open>component_sum\<close> is their
  sum in floating-point arithmetic, in the order of the program: the points of the
  specialty and of the distance, which are integers, then the points of the rating, then
  10 for an emergency room, then 5 for an ambulance.
\<close>

definition specialty_points :: "hospital_dict \<Rightarrow> rat" where
  "specialty_points h =
     (if specialty_match h then 40
      else if ''General Medicine'' \<in> set (specialties h) then 20
      else 0)"

definition distance_points :: "rat \<Rightarrow> rat" where
  "distance_points d =
     (if d \<le> 5 then 30 else if d \<le> 10 then 25 else if d \<le> 20 then 15
      else if d \<le> 30 then 10 else 5)"

definition rating_points :: "rat \<Rightarrow> rat" where
  "rating_points r = float_mul (float_div r 5) 20"

definition component_sum :: "hospital_dict \<Rightarrow> string \<Rightarrow> rat" where
  "component_sum h prio =
     (let ready = (prio = ''urgent'' \<or> prio = ''critical'');
          s = float_add (specialty_points h + distance_points (distance_km h))
                (rating_points (rating h));
          s = (if ready \<and> has_emergency h then float_add s 10 else s);
          s = (if ready \<and> has_ambulance h then float_add s 5 else s)
      in s)"

section \<open>Sample values\<close>

text \<open>
  Concrete rows, dicts and a distance function on which the theorems are instantiated;
  \<open>sample_geodesic\<close> stands in for the distance of geopy and never fails.
\<close>

definition sample_dict :: "int \<Rightarrow> rat \<Rightarrow> rat \<Rightarrow> hospital_dict" where
  "sample_dict i d r =
     \<lparr>row_id = i, name = ''Sample Hospital'', latitude = 0, longitude = 0, address = [],
      phone = [], email = [], rating = r, total_reviews = 0, has_emergency = True,
      has_ambulance = True, specialties = [''Cardiology''], facilities = [],
      open_247 = True, distance_km = d, travel_time_minutes = 5, specialty_match = True,
      total_score = None\<rparr>"

definition sample_analysis :: "string \<Rightarrow> analysis" where
  "sample_analysis prio =
     \<lparr>category = ''general'', specialty = ''General Medicine'', priority = prio,
      confidence = 1 / 2, raw_scores = []\<rparr>"

definition sample_row :: "int \<Rightarrow> rat \<Rightarrow> rat \<Rightarrow> hospital_row" where
  "sample_row i la lo =
     \<lparr>row_id = i, name = ''Sample Hospital'', latitude = la, longitude = lo, address = [],
      phone = [], email = [], rating = 4, total_reviews = 10, has_emergency = True,
      has_ambulance = True, specialties = ''Cardiology,General Medicine'',
      facilities = ''ICU'', open_247 = True\<rparr>"

definition sample_geodesic :: "rat \<times> rat \<Rightarrow> rat \<times> rat \<Rightarrow> unit + rat" where
  "sample_geodesic a b = Inr (\<bar>fst a - fst b\<bar> + \<bar>snd a - snd b\<bar>)"

section \<open>Substrings\<close>

lemma starts_with_iff: "starts_with s k \<longleftrightarrow> (\<exists>q. s = k @ q)"
  by (induction s k rule: starts_with.induct) auto

lemma str_in_iff: "str_in k s \<longleftrightarrow> (\<exists>p q. s = p @ k @ q)"
proof (induction s)
  case Nil
  then show ?case by auto
next
  case (Cons c cs)
  show ?case
  proof
    assume "str_in k (c # cs)"
    then consider "starts_with (c # cs) k" | "str_in k cs" by auto
    then show "\<exists>p q. c # cs = p @ k @ q"
    proof cases
      case 1
      then obtain q where "c # cs = k @ q" by (auto simp: starts_with_iff)
      then have "c # cs = [] @ k @ q" by simp
      then show ?thesis by blast
    next
      case 2
      with Cons obtain p q where "cs = p @ k @ q" by auto
      then have "c # cs = (c # p) @ k @ q" by simp
      then show ?thesis by blast
    qed
  next
    assume "\<exists>p q. c # cs = p @ k @ q"
    then obtain p q where pq: "c # cs = p @ k @ q" by blast
    show "str_in k (c # cs)"
    proof (cases p)
      case Nil
      with pq have "starts_with (c # cs) k" by (auto simp: starts_with_iff)
      then show ?thesis by simp
    next
      case (Cons a p')
      with pq have "cs = p' @ k @ q" by simp
      with Cons.IH have "str_in k cs" by blast
      then show ?thesis by simp
    qed
  qed
qed

section \<open>The scoring loops\<close>

lemma keyword_step_points: "keyword_step s k score = score + phrase_points s k"
  by (simp add: keyword_step_def phrase_points_def)

lemma keywords_loop_points: "keywords_loop s ks score = score + category_points s ks"
  by (induction ks arbitrary: score) (simp_all add: category_points_def keyword_step_points)

lemma dict_set_new: "k \<notin> fst ` set d \<Longrightarrow> dict_set d k v = d @ [(k, v)]"
  by (induction d) auto

lemma categories_loop_entries:
  "distinct (map fst table) \<Longrightarrow> set (map fst table) \<inter> set (map fst scores) = {} \<Longrightarrow>
   categories_loop s table scores = scores @ positive_entries s table"
proof (induction table arbitrary: scores)
  case Nil
  then show ?case by (simp add: positive_entries_def)
next
  case (Cons ck rest)
  obtain c ks where ck: "ck = (c, ks)" by (cases ck)
  let ?n = "category_points s ks"
  let ?new = "if 0 < ?n then [(c, ?n)] else []"
  let ?scores' = "if 0 < ?n then dict_set scores c ?n else scores"
  have fresh: "c \<notin> fst ` set scores" using Cons.prems(2) ck by simp
  have s': "?scores' = scores @ ?new"
    using fresh by (simp add: dict_set_new)
  have d: "distinct (map fst rest)" using Cons.prems(1) by simp
  have cr: "c \<notin> set (map fst rest)" using Cons.prems(1) ck by simp
  have disj: "set (map fst rest) \<inter> set (map fst scores) = {}" using Cons.prems(2) by simp
  have "set (map fst rest) \<inter> set (map fst (scores @ ?new)) = {}"
  proof (cases "0 < ?n")
    case True
    then show ?thesis using disj cr by simp
  next
    case False
    then show ?thesis using disj by simp
  qed
  then have "categories_loop s rest (scores @ ?new) = (scores @ ?new) @ positive_entries s rest"
    using Cons.IH d by blast
  moreover have "categories_loop s (ck # rest) scores = categories_loop s rest ?scores'"
    unfolding ck categories_loop.simps Let_def keywords_loop_points by simp
  moreover have "positive_entries s (ck # rest) = ?new @ positive_entries s rest"
    by (simp add: ck positive_entries_def)
  ultimately show ?case
    unfolding s' by simp
qed

lemma distinct_medical_keywords: "distinct (map fst medical_keywords)"
  by (simp add: medical_keywords_def)

lemma score_categories_entries: "score_categories s = positive_entries s medical_keywords"
  using categories_loop_entries [OF distinct_medical_keywords, of "[]" s]
  by (simp add: score_categories_def)

lemma max_from_invariant:
  assumes "seen = ys0 @ best # zs0"
    and "\<forall>y \<in> set ys0. key y < key best"
    and "\<forall>z \<in> set zs0. key z \<le> key best"
  shows "\<exists>ys zs. seen @ xs = ys @ max_from key best xs # zs \<and>
     (\<forall>y \<in> set ys. key y < key (max_from key best xs)) \<and>
     (\<forall>z \<in> set zs. key z \<le> key (max_from key best xs))"
  using assms
proof (induction xs arbitrary: seen best ys0 zs0)
  case Nil
  then show ?case by auto
next
  case (Cons x xs)
  show ?case
  proof (cases "key best < key x")
    case True
    have "seen @ [x] = seen @ x # []" by simp
    moreover have "\<forall>y \<in> set seen. key y < key x"
      using Cons.prems True by auto
    ultimately obtain ys zs where
      "(seen @ [x]) @ xs = ys @ max_from key x xs # zs"
      "\<forall>y \<in> set ys. key y < key (max_from key x xs)"
      "\<forall>z \<in> set zs. key z \<le> key (max_from key x xs)"
      using Cons.IH [of "seen @ [x]" seen x "[]"] by auto
    with True show ?thesis by auto
  next
    case False
    have "seen @ [x] = ys0 @ best # (zs0 @ [x])" using Cons.prems by simp
    moreover have "\<forall>z \<in> set (zs0 @ [x]). key z \<le> key best"
      using Cons.prems False by auto
    ultimately obtain ys zs where
      "(seen @ [x]) @ xs = ys @ max_from key best xs # zs"
      "\<forall>y \<in> set ys. key y < key (max_from key best xs)"
      "\<forall>z \<in> set zs. key z \<le> key (max_from key best xs)"
      using Cons.IH [of "seen @ [x]" ys0 best "zs0 @ [x]"] Cons.prems(2) by blast
    with False show ?thesis by auto
  qed
qed

lemma max_from_split:
  "\<exists>ys zs. best # xs = ys @ max_from key best xs # zs \<and>
     (\<forall>y \<in> set ys. key y < key (max_from key best xs)) \<and>
     (\<forall>z \<in> set zs. key z \<le> key (max_from key best xs))"
  using max_from_invariant [of "[best]" "[]" best "[]" key xs] by simp

section \<open>The result of \<open>analyze\<close>\<close>

lemma analyze_raw_scores: "raw_scores (analyze lower s l) = score_categories (normalized lower s l)"
  by (simp add: analyze_def Let_def split: prod.splits)

lemma analyze_priority: "priority (analyze lower s l) = determine_priority (normalized lower s l)"
  by (simp add: analyze_def Let_def split: prod.splits)

lemma analyze_empty:
  assumes "score_categories (normalized lower s l) = []"
  shows "category (analyze lower s l) = ''general''"
    and "confidence (analyze lower s l) = 1 / 2"
    and "specialty (analyze lower s l) = ''General Medicine''"
  using assms by (simp_all add: analyze_def Let_def specialty_rules_def)

lemma analyze_winner:
  assumes "score_categories (normalized lower s l) = item # items"
  shows "category (analyze lower s l) = fst (max_from snd item items)"
    and "confidence (analyze lower s l) =
       min (float_div (of_int (snd (max_from snd item items))) 10) 1"
  using assms by (simp_all add: analyze_def Let_def)

lemma phrase_points_range: "0 \<le> phrase_points t k \<and> phrase_points t k \<le> 3"
  by (simp add: phrase_points_def)

lemma category_points_nonneg: "0 \<le> category_points t ks"
  unfolding category_points_def
  by (induction ks) (simp_all add: phrase_points_range)

lemma filter_eq_appendD:
  "filter P xs = ys @ zs \<Longrightarrow> \<exists>us vs. xs = us @ vs \<and> filter P us = ys \<and> filter P vs = zs"
proof (induction ys arbitrary: xs)
  case Nil
  then have "xs = [] @ xs \<and> filter P [] = [] \<and> filter P xs = zs" by simp
  then show ?case by blast
next
  case (Cons y ys)
  then have "filter P xs = y # (ys @ zs)" by simp
  then obtain us0 vs0 where xs: "xs = us0 @ y # vs0" and u0: "\<forall>u \<in> set us0. \<not> P u"
    and py: "P y" and f: "ys @ zs = filter P vs0"
    by (auto dest: filter_eq_ConsD)
  from Cons.IH [of vs0] f obtain us1 vs1 where
    v: "vs0 = us1 @ vs1" and f1: "filter P us1 = ys" and f2: "filter P vs1 = zs" by auto
  have "xs = (us0 @ y # us1) @ vs1" using xs v by simp
  moreover have "filter P (us0 @ y # us1) = y # ys" using u0 py f1 by simp
  ultimately show ?case using f2 by blast
qed

lemma filter_first_max:
  assumes "filter (\<lambda>p. 0 < snd p) all = ys @ m # zs"
    and "\<forall>y \<in> set ys. snd y < snd m"
    and "\<forall>z \<in> set zs. snd z \<le> snd m"
  shows "\<exists>A B. all = A @ m # B \<and> (0::int) < snd m \<and>
     (\<forall>a \<in> set A. snd a < snd m) \<and> (\<forall>b \<in> set B. snd b \<le> snd m)"
proof -
  let ?P = "\<lambda>p::'a \<times> int. 0 < snd p"
  from assms(1) obtain us vs where
    all: "all = us @ vs" and us: "filter ?P us = ys" and vs: "filter ?P vs = m # zs"
    by (auto dest: filter_eq_appendD)
  from vs obtain us' vs' where
    vs_eq: "vs = us' @ m # vs'" and npos: "\<forall>u \<in> set us'. \<not> ?P u" and pm: "?P m"
    and vs': "filter ?P vs' = zs"
    by (auto simp: filter_eq_Cons_iff)
  have "all = (us @ us') @ m # vs'" using all vs_eq by simp
  moreover have "\<forall>a \<in> set (us @ us'). snd a < snd m"
  proof
    fix a assume a: "a \<in> set (us @ us')"
    show "snd a < snd m"
    proof (cases "?P a")
      case True
      with a npos have "a \<in> set us" by auto
      with True us have "a \<in> set ys" by auto
      with assms(2) show ?thesis by blast
    next
      case False
      with pm show ?thesis by simp
    qed
  qed
  moreover have "\<forall>b \<in> set vs'. snd b \<le> snd m"
  proof
    fix b assume b: "b \<in> set vs'"
    show "snd b \<le> snd m"
    proof (cases "?P b")
      case True
      with b vs' have "b \<in> set zs" by auto
      with assms(3) show ?thesis by blast
    next
      case False
      with pm show ?thesis by simp
    qed
  qed
  ultimately show ?thesis using pm by blast
qed

lemma winner_in_table:
  assumes "positive_entries t table = item # items"
  shows "\<exists>before c ps after. table = before @ (c, ps) # after \<and>
     max_from snd item items = (c, category_points t ps) \<and>
     0 < category_points t ps \<and>
     (\<forall>(c', ps') \<in> set before. category_points t ps' < category_points t ps) \<and>
     (\<forall>(c', ps') \<in> set after. category_points t ps' \<le> category_points t ps)"
proof -
  let ?g = "\<lambda>(c, phrases). (c, category_points t phrases)"
  let ?m = "max_from snd item items"
  obtain ys zs where d: "item # items = ys @ ?m # zs"
    and l: "\<forall>y \<in> set ys. snd y < snd ?m" and r: "\<forall>z \<in> set zs. snd z \<le> snd ?m"
    using max_from_split [of item items snd] by blast
  have "filter (\<lambda>p. 0 < snd p) (map ?g table) = ys @ ?m # zs"
    using assms d by (simp add: positive_entries_def case_prod_unfold)
  from filter_first_max [OF this l r] obtain A B where
    ab: "map ?g table = A @ ?m # B" and pos: "0 < snd ?m"
    and la: "\<forall>a \<in> set A. snd a < snd ?m" and rb: "\<forall>b \<in> set B. snd b \<le> snd ?m"
    by blast
  from ab obtain before rest where t1: "table = before @ rest" and mb: "map ?g before = A"
    and mr: "map ?g rest = ?m # B"
    by (auto simp: map_eq_append_conv)
  from mr obtain x after where t2: "rest = x # after" and gx: "?g x = ?m" and ma: "map ?g after = B"
    by (auto simp: map_eq_Cons_conv)
  obtain c ps where x: "x = (c, ps)" by (cases x)
  have m: "?m = (c, category_points t ps)" using gx x by simp
  have "\<forall>(c', ps') \<in> set before. category_points t ps' < category_points t ps"
  proof clarify
    fix c' ps' assume "(c', ps') \<in> set before"
    then have "?g (c', ps') \<in> set A" using mb by force
    with la m show "category_points t ps' < category_points t ps" by force
  qed
  moreover have "\<forall>(c', ps') \<in> set after. category_points t ps' \<le> category_points t ps"
  proof clarify
    fix c' ps' assume "(c', ps') \<in> set after"
    then have "?g (c', ps') \<in> set B" using ma by force
    with rb m show "category_points t ps' \<le> category_points t ps" by force
  qed
  moreover have "table = before @ (c, ps) # after" using t1 t2 x by simp
  ultimately show ?thesis using m pos by auto
qed

lemma positive_entries_empty:
  "positive_entries t table = [] \<longleftrightarrow> (\<forall>(c, ps) \<in> set table. category_points t ps = 0)"
proof -
  have "positive_entries t table = [] \<longleftrightarrow> (\<forall>(c, ps) \<in> set table. \<not> 0 < category_points t ps)"
    by (auto simp: positive_entries_def filter_empty_conv)
  moreover have "(\<not> 0 < category_points t ps) \<longleftrightarrow> category_points t ps = 0" for ps
    using category_points_nonneg [of t ps] by linarith
  ultimately show ?thesis by simp
qed

lemma any_keyword_in_iff: "any_keyword_in ks s \<longleftrightarrow> (\<exists>k \<in> set ks. str_in k s)"
  by (induction ks) auto

lemma map_of_positive_entries:
  "distinct (map fst table) \<Longrightarrow>
   map_of (positive_entries t table) c =
     (case map_of table c of
        None \<Rightarrow> None
      | Some ps \<Rightarrow> if 0 < category_points t ps then Some (category_points t ps) else None)"
proof (induction table)
  case Nil
  then show ?case by (simp add: positive_entries_def)
next
  case (Cons x table)
  obtain c' ps' where x: "x = (c', ps')" by (cases x)
  have pe: "positive_entries t (x # table) =
      (if 0 < category_points t ps' then [(c', category_points t ps')] else []) @
      positive_entries t table"
    by (simp add: x positive_entries_def)
  have ih: "map_of (positive_entries t table) c =
     (case map_of table c of
        None \<Rightarrow> None
      | Some ps \<Rightarrow> if 0 < category_points t ps then Some (category_points t ps) else None)"
    using Cons by simp
  show ?case
  proof (cases "c = c'")
    case True
    then have "map_of table c = None" using Cons.prems x by (auto simp: map_of_eq_None_iff)
    with ih True show ?thesis unfolding pe by (simp add: x)
  next
    case False
    with ih show ?thesis unfolding pe by (simp add: x)
  qed
qed

section \<open>Rounding\<close>

lemma round_half_even_nonneg: "0 \<le> x \<Longrightarrow> 0 \<le> round_half_even x"
  by (simp add: round_half_even_def Let_def)

lemma round_half_even_le: "x \<le> of_int n \<Longrightarrow> round_half_even x \<le> n"
proof -
  assume le: "x \<le> of_int n"
  then have f: "\<lfloor>x\<rfloor> \<le> n" by (simp add: floor_le_iff)
  show ?thesis
  proof (cases "x - of_int \<lfloor>x\<rfloor> < 1 / 2")
    case True
    then show ?thesis using f by (simp add: round_half_even_def Let_def)
  next
    case False
    then have "of_int \<lfloor>x\<rfloor> < x" by linarith
    with le have "(of_int \<lfloor>x\<rfloor> :: rat) < of_int n" by linarith
    then have "\<lfloor>x\<rfloor> < n" by simp
    then have "\<lfloor>x\<rfloor> + 1 \<le> n" by simp
    then show ?thesis using f by (simp add: round_half_even_def Let_def)
  qed
qed

lemma round_half_even_ge: "of_int n \<le> x \<Longrightarrow> n \<le> round_half_even x"
proof -
  assume "of_int n \<le> x"
  then have "n \<le> \<lfloor>x\<rfloor>" by (simp add: le_floor_iff)
  then show ?thesis by (simp add: round_half_even_def Let_def)
qed

lemma round_half_even_nearest:
  "\<bar>of_int (round_half_even y) - y\<bar> \<le> 1 / 2
   \<and> (\<bar>of_int (round_half_even y) - y\<bar> = 1 / 2 \<longrightarrow> even (round_half_even y))"
proof -
  let ?f = "\<lfloor>y\<rfloor>"
  let ?r = "y - of_int ?f"
  have r0: "0 \<le> ?r" and r1: "?r < 1" by linarith+
  consider "?r < 1 / 2" | "1 / 2 < ?r" | "?r = 1 / 2" by linarith
  then show ?thesis
  proof cases
    case 1
    then have e: "round_half_even y = ?f" by (simp add: round_half_even_def Let_def)
    have "\<bar>of_int ?f - y\<bar> < 1 / 2" using 1 r0 by linarith
    then show ?thesis unfolding e by simp
  next
    case 2
    then have e: "round_half_even y = ?f + 1" by (simp add: round_half_even_def Let_def)
    have "\<bar>of_int (?f + 1) - y\<bar> < 1 / 2" using 2 r1 by simp
    then show ?thesis unfolding e by simp
  next
    case 3
    then have e: "round_half_even y = (if even ?f then ?f else ?f + 1)"
      by (simp add: round_half_even_def Let_def)
    have "\<bar>of_int ?f - y\<bar> = 1 / 2" "\<bar>of_int (?f + 1) - y\<bar> = 1 / 2" using 3 by simp_all
    then show ?thesis unfolding e by simp
  qed
qed

lemma pow2_pos: "0 < pow2 e"
  by (simp add: pow2_def)

lemma pow2_nonpos: "e \<le> 0 \<Longrightarrow> pow2 e = 1 / 2 ^ nat (- e)"
  by (cases "e = 0") (simp_all add: pow2_def)

lemma float_round_nonneg: "0 \<le> x \<Longrightarrow> 0 \<le> float_round x"
proof (cases "x = 0")
  case True
  then show ?thesis by (simp add: float_round_def)
next
  case False
  assume "0 \<le> x"
  let ?u = "pow2 (float_exponent x - 52)"
  have "0 \<le> x / ?u" using \<open>0 \<le> x\<close> pow2_pos [of "float_exponent x - 52"] by simp
  then have "0 \<le> round_half_even (x / ?u)" by (rule round_half_even_nonneg)
  then have "(0::rat) \<le> of_int (round_half_even (x / ?u)) * ?u"
    using pow2_pos [of "float_exponent x - 52"] by simp
  then show ?thesis using False by (simp add: float_round_def Let_def)
qed

lemma float_exponent_le:
  assumes "0 < x" and "x \<le> of_int n" and "n \<le> 2 ^ 52"
  shows "float_exponent x \<le> 52"
proof (cases "1 \<le> x")
  case True
  let ?m = "\<lfloor>x\<rfloor>"
  have m1: "0 < ?m" using True by simp
  have "?m \<le> n" using assms(2) by (simp add: floor_le_iff)
  then have mn: "?m \<le> 2 ^ 52" using assms(3) by linarith
  from bitlen_bounds [OF m1] have "(2::int) ^ nat (bitlen ?m - 1) \<le> ?m" by simp
  with mn have p: "(2::int) ^ nat (bitlen ?m - 1) \<le> 2 ^ 52" by linarith
  have "(1::int) < 2" by simp
  from power_le_imp_le_exp [OF this p] have "nat (bitlen ?m - 1) \<le> 52" .
  then have "bitlen ?m - 1 \<le> 52" by simp
  moreover have "float_exponent x = bitlen ?m - 1"
    using True assms(1) by (simp add: float_exponent_def Let_def)
  ultimately show ?thesis by simp
next
  case False
  then have "float_exponent x = - bitlen (\<lceil>1 / x\<rceil> - 1)"
    using assms(1) by (simp add: float_exponent_def Let_def)
  moreover have "0 \<le> bitlen (\<lceil>1 / x\<rceil> - 1)" by (rule bitlen_nonneg)
  ultimately show ?thesis by simp
qed

lemma float_round_le_int:
  assumes "0 \<le> x" and "x \<le> of_int n" and "n \<le> 2 ^ 52"
  shows "float_round x \<le> of_int n"
proof (cases "x = 0")
  case True
  then show ?thesis using assms by (simp add: float_round_def)
next
  case False
  then have pos: "0 < x" using assms(1) by simp
  define k where "k = nat (52 - float_exponent x)"
  have e: "float_exponent x - 52 \<le> 0" using float_exponent_le [OF pos assms(2,3)] by simp
  have u: "pow2 (float_exponent x - 52) = 1 / 2 ^ k"
    using pow2_nonpos [OF e] by (simp add: k_def)
  have "x * 2 ^ k \<le> of_int n * 2 ^ k" using assms(2) by simp
  also have "\<dots> = of_int (n * 2 ^ k)" by simp
  finally have "round_half_even (x * 2 ^ k) \<le> n * 2 ^ k" by (rule round_half_even_le)
  then have "(of_int (round_half_even (x * 2 ^ k)) :: rat) \<le> of_int (n * 2 ^ k)"
    by (simp only: of_int_le_iff)
  then have "(of_int (round_half_even (x * 2 ^ k)) :: rat) / 2 ^ k \<le> of_int n"
    by (simp add: divide_le_eq)
  then show ?thesis using False by (simp add: float_round_def Let_def u)
qed

lemma float_round_ge_1:
  assumes "1 \<le> x"
  shows "1 \<le> float_round x"
proof -
  let ?m = "\<lfloor>x\<rfloor>"
  let ?e = "bitlen ?m - 1"
  have m1: "0 < ?m" using assms by simp
  have fe: "float_exponent x = ?e" using assms by (simp add: float_exponent_def Let_def)
  have hi: "?m < 2 ^ nat (bitlen ?m)" using bitlen_bounds [OF m1] by simp
  have e0: "0 \<le> ?e"
  proof (rule ccontr)
    assume "\<not> 0 \<le> ?e"
    then have "nat (bitlen ?m) = 0" by simp
    with hi have "?m < 1" by simp
    with m1 show False by simp
  qed
  have "(2::int) ^ nat ?e \<le> ?m" using bitlen_bounds [OF m1] by simp
  then have "(of_int (2 ^ nat ?e) :: rat) \<le> of_int ?m" by (simp only: of_int_le_iff)
  also have "\<dots> \<le> x" by simp
  finally have lo: "(2::rat) ^ nat ?e \<le> x" by simp
  have one: "(1::rat) \<le> 2 ^ nat ?e" by simp
  define c :: int where "c = 2 ^ 52"
  have c: "(of_int c :: rat) = 2 ^ 52" by (simp add: c_def)
  let ?u = "pow2 (?e - 52)"
  have up: "0 < ?u" by (rule pow2_pos)
  have j: "(2::rat) ^ nat ?e = of_int c * ?u"
  proof (cases "52 \<le> ?e")
    case True
    then have "?u = 2 ^ nat (?e - 52)" by (simp add: pow2_def)
    moreover have "nat ?e = 52 + nat (?e - 52)" using True by simp
    then have "(2::rat) ^ nat ?e = 2 ^ 52 * 2 ^ nat (?e - 52)"
      by (simp only: power_add)
    ultimately show ?thesis by (simp only: c)
  next
    case False
    then have u: "?u = 1 / 2 ^ nat (52 - ?e)" using pow2_nonpos [of "?e - 52"] by simp
    have "52 = nat ?e + nat (52 - ?e)" using False e0 by simp
    then have "(2::rat) ^ 52 = 2 ^ (nat ?e + nat (52 - ?e))" by simp
    then have "(2::rat) ^ 52 = 2 ^ nat ?e * 2 ^ nat (52 - ?e)"
      by (simp only: power_add)
    moreover have "(2::rat) ^ nat (52 - ?e) \<noteq> 0" by simp
    moreover have "a = b * d \<Longrightarrow> d \<noteq> 0 \<Longrightarrow> a * (1 / d) = b" for a b d :: rat by simp
    ultimately have "(2::rat) ^ 52 * (1 / 2 ^ nat (52 - ?e)) = 2 ^ nat ?e" by blast
    then show ?thesis by (simp only: c u)
  qed
  have "of_int c * ?u \<le> x" using lo j by simp
  then have "of_int c \<le> x / ?u" using up by (simp add: pos_le_divide_eq)
  then have "c \<le> round_half_even (x / ?u)" by (rule round_half_even_ge)
  then have "(of_int c :: rat) \<le> of_int (round_half_even (x / ?u))"
    by (simp only: of_int_le_iff)
  then have "of_int c * ?u \<le> of_int (round_half_even (x / ?u)) * ?u"
    using up by (simp only: mult_le_cancel_right_pos)
  moreover have "float_round x = of_int (round_half_even (x / ?u)) * ?u"
    using assms by (simp add: float_round_def Let_def fe)
  ultimately have "(2::rat) ^ nat ?e \<le> float_round x"
    by (simp only: j)
  with one show ?thesis by linarith
qed

section \<open>Evaluated examples\<close>

lemma eval_float_tenth: "float_round (1 / 10) = 3602879701896397 / 36028797018963968"
  by code_simp

lemma eval_float_third: "float_round (1 / 3) = 6004799503160661 / 18014398509481984"
  by code_simp

lemma eval_float_tie:
  "float_round (2 ^ 53 + 1) = 2 ^ 53 \<and> float_round (2 ^ 53 + 3) = 2 ^ 53 + 4"
  by code_simp

lemma eval_chest_normalized:
  "normalized ascii_lower ''I have severe chest pain and difficulty breathing'' ''en''
   = ''i have severe chest pain and difficulty breathing''"
  by code_simp

lemma eval_chest_scores:
  "score_categories ''i have severe chest pain and difficulty breathing'' =
     [(''cardiovascular'', 5), (''respiratory'', 7), (''neurological'', 1),
      (''gastrointestinal'', 2), (''orthopedic'', 6), (''emergency'', 1),
      (''ophthalmology'', 1), (''ent'', 1)]"
  by code_simp

lemma eval_chest_priority:
  "determine_priority ''i have severe chest pain and difficulty breathing'' = ''critical''"
  by code_simp

lemma eval_dizzy: "score_categories (normalized ascii_lower ''very dizzy'' ''en'') = []"
  by code_simp

lemma eval_dizzy_priority:
  "determine_priority (normalized ascii_lower ''very dizzy'' ''en'') = ''urgent''"
  by code_simp

lemma eval_attack:
  "score_categories (normalized ascii_lower ''attack'' ''en'') = [(''cardiovascular'', 1)]"
  by code_simp

lemma eval_zzz: "score_categories (normalized ascii_lower ''zzz qqq'' ''en'') = []"
  by code_simp

lemma eval_tie:
  "score_categories (normalized ascii_lower ''attack fever cough'' ''en'') =
     [(''cardiovascular'', 1), (''respiratory'', 3), (''infectious'', 3)]"
  by code_simp

lemma eval_small_confidence:
  "list_all (\<lambda>n. float_round (1 / 10) \<le> min (float_div (of_int n) 10) 1) [1..9]"
  by code_simp

lemma confidence_bounds:
  assumes "0 < n"
  shows "float_round (1 / 10) \<le> min (float_div (of_int n) 10) 1"
    and "1 / 10 \<le> min (float_div (of_int n) 10) 1"
    and "min (float_div (of_int n) 10) 1 \<le> 1"
proof -
  show low: "float_round (1 / 10) \<le> min (float_div (of_int n) 10) 1"
  proof (cases "n \<le> 9")
    case True
    with assms have "n \<in> set [1..9]" by simp
    with eval_small_confidence show ?thesis by (simp only: list_all_iff)
  next
    case False
    then have "10 \<le> n" by simp
    then have "(10::rat) \<le> of_int n" by (metis of_int_le_iff of_int_numeral)
    then have "(1::rat) \<le> of_int n / 10" by simp
    then have "1 \<le> float_round (of_int n / 10)" by (rule float_round_ge_1)
    then have "min (float_div (of_int n) 10) 1 = 1" by (simp add: float_div_def)
    moreover have "float_round (1 / 10) \<le> 1" by (simp add: eval_float_tenth)
    ultimately show ?thesis by simp
  qed
  have "(1 / 10 :: rat) \<le> float_round (1 / 10)" by (simp add: eval_float_tenth)
  with low show "1 / 10 \<le> min (float_div (of_int n) 10) 1" by linarith
  show "min (float_div (of_int n) 10) 1 \<le> 1" by simp
qed

section \<open>Claims on the symptom analyzer\<close>

text \<open>
  C1 (as amended). For the text "I have severe chest pain and difficulty breathing" and the
  language code en, \<open>analyze\<close> returns the category respiratory, whose score 7 is above
  the 5 of cardiovascular, and the priority critical.
\<close>

theorem C1_chest_pain_example:
  "category (analyze ascii_lower ''I have severe chest pain and difficulty breathing'' ''en'')
     = ''respiratory''
   \<and> priority (analyze ascii_lower ''I have severe chest pain and difficulty breathing'' ''en'')
       = ''critical''
   \<and> raw_scores (analyze ascii_lower ''I have severe chest pain and difficulty breathing'' ''en'') =
       [(''cardiovascular'', 5), (''respiratory'', 7), (''neurological'', 1),
        (''gastrointestinal'', 2), (''orthopedic'', 6), (''emergency'', 1),
        (''ophthalmology'', 1), (''ent'', 1)]"
  using analyze_winner(1)
    [of ascii_lower "''I have severe chest pain and difficulty breathing''" "''en''"]
  by (simp add: analyze_raw_scores analyze_priority eval_chest_normalized eval_chest_scores
      eval_chest_priority)

text \<open>
  C1 as stated fails: the category returned for that text is not cardiovascular.
\<close>

theorem C1_counterexample:
  "\<not> (category (analyze ascii_lower ''I have severe chest pain and difficulty breathing'' ''en'')
        = ''cardiovascular''
      \<and> priority (analyze ascii_lower ''I have severe chest pain and difficulty breathing'' ''en'')
          = ''critical'')"
  using analyze_winner(1)
    [of ascii_lower "''I have severe chest pain and difficulty breathing''" "''en''"]
  by (simp add: eval_chest_normalized eval_chest_scores)

text \<open>
  C3. Whatever \<^verbatim>\<open>str.lower\<close> does to the text: the score that \<open>_score_categories\<close>
  computes for a category is the sum over the phrases of the category of 3 for a phrase
  that occurs in the normalized text, else 1 when one of the words of the phrase occurs,
  else 0; the raw scores of \<open>analyze\<close> are the categories of the keyword table, in its
  order, with a positive score, each with that score.
\<close>

theorem C3_category_scores:
  "keywords_loop text phrases 0 =
     (\<Sum>phrase\<leftarrow>phrases.
        if str_in phrase text then 3
        else if list_ex (\<lambda>word. str_in word text) (str_split phrase) then 1
        else 0)
   \<and> raw_scores (analyze lower symptoms language) =
       filter (\<lambda>(c, n). 0 < n)
         (map (\<lambda>(c, phrases). (c, keywords_loop (normalized lower symptoms language) phrases 0))
            medical_keywords)
   \<and> map_of (raw_scores (analyze lower symptoms language)) c =
       (case map_of medical_keywords c of
          None \<Rightarrow> None
        | Some phrases \<Rightarrow>
            if 0 < keywords_loop (normalized lower symptoms language) phrases 0
            then Some (keywords_loop (normalized lower symptoms language) phrases 0)
            else None)"
proof -
  have a: "keywords_loop t ps 0 = category_points t ps" for t ps
    by (simp add: keywords_loop_points)
  have "category_points text phrases =
     (\<Sum>phrase\<leftarrow>phrases.
        if str_in phrase text then 3
        else if list_ex (\<lambda>word. str_in word text) (str_split phrase) then 1
        else 0)"
    by (simp add: category_points_def phrase_points_def cong: map_cong)
  moreover have "raw_scores (analyze lower symptoms language) =
       filter (\<lambda>(c, n). 0 < n)
         (map (\<lambda>(c, phrases). (c, category_points (normalized lower symptoms language) phrases))
            medical_keywords)"
    by (simp add: analyze_raw_scores score_categories_entries positive_entries_def)
  moreover have "map_of (raw_scores (analyze lower symptoms language)) c =
       (case map_of medical_keywords c of
          None \<Rightarrow> None
        | Some phrases \<Rightarrow>
            if 0 < category_points (normalized lower symptoms language) phrases
            then Some (category_points (normalized lower symptoms language) phrases)
            else None)"
    using map_of_positive_entries [OF distinct_medical_keywords]
    by (simp add: analyze_raw_scores score_categories_entries)
  ultimately show ?thesis unfolding a by (intro conjI)
qed

text \<open>
  C5. Whatever \<^verbatim>\<open>str.lower\<close> does to the text, the priority does not depend on the
  category: it is critical when a phrase of the critical list occurs in the normalized
  text, otherwise urgent when a phrase of the urgent list occurs, otherwise normal.
\<close>

theorem C5_priority:
  "priority (analyze lower symptoms language) =
     (if \<exists>phrase \<in> set priority_rules_critical.
           str_in phrase (normalized lower symptoms language)
      then ''critical''
      else if \<exists>phrase \<in> set priority_rules_urgent.
                str_in phrase (normalized lower symptoms language)
      then ''urgent''
      else ''normal'')"
  by (simp add: analyze_priority determine_priority_def any_keyword_in_iff)

lemma analyze_specialty:
  "specialty (analyze lower s l) =
     (case map_of specialty_rules (category (analyze lower s l)) of
        Some sp \<Rightarrow> sp
      | None \<Rightarrow> ''General Medicine'')"
  by (simp add: analyze_def Let_def split: list.splits)

lemma medical_keywords_order:
  "map fst medical_keywords =
     [''cardiovascular'', ''respiratory'', ''neurological'', ''gastrointestinal'',
      ''orthopedic'', ''infectious'', ''emergency'', ''pediatric'', ''gynecological'',
      ''dermatology'', ''ophthalmology'', ''ent'', ''general'']"
  by (simp add: medical_keywords_def)

lemma analyze_winner_in_table:
  assumes "raw_scores (analyze lower s l) \<noteq> []"
  shows "\<exists>before c ps after. medical_keywords = before @ (c, ps) # after \<and>
     category (analyze lower s l) = c \<and>
     0 < keywords_loop (normalized lower s l) ps 0 \<and>
     (\<forall>(c', ps') \<in> set before.
        keywords_loop (normalized lower s l) ps' 0 < keywords_loop (normalized lower s l) ps 0) \<and>
     (\<forall>(c', ps') \<in> set after.
        keywords_loop (normalized lower s l) ps' 0 \<le> keywords_loop (normalized lower s l) ps 0) \<and>
     confidence (analyze lower s l) =
       min (float_div (of_int (keywords_loop (normalized lower s l) ps 0)) 10) 1"
proof -
  let ?t = "normalized lower s l"
  from assms obtain item items where sc: "score_categories ?t = item # items"
    by (cases "score_categories ?t") (simp_all add: analyze_raw_scores)
  then have pe: "positive_entries ?t medical_keywords = item # items"
    by (simp add: score_categories_entries)
  from winner_in_table [OF pe] obtain before c ps after where
    t: "medical_keywords = before @ (c, ps) # after"
    and m: "max_from snd item items = (c, category_points ?t ps)"
    and pos: "0 < category_points ?t ps"
    and l: "\<forall>(c', ps') \<in> set before. category_points ?t ps' < category_points ?t ps"
    and r: "\<forall>(c', ps') \<in> set after. category_points ?t ps' \<le> category_points ?t ps"
    by blast
  have k: "keywords_loop ?t qs 0 = category_points ?t qs" for qs
    by (simp add: keywords_loop_points)
  have "category (analyze lower s l) = c"
    using analyze_winner(1) [OF sc] m by simp
  moreover have "confidence (analyze lower s l) =
      min (float_div (of_int (category_points ?t ps)) 10) 1"
    using analyze_winner(2) [OF sc] m by simp
  ultimately show ?thesis
    unfolding k using t pos l r by blast
qed

text \<open>
  C4 (as amended). Whatever \<^verbatim>\<open>str.lower\<close> does to the text: when a category scores above
  zero, \<open>analyze\<close> returns the category of greatest score, the earliest of the keyword
  table (cardiovascular, respiratory, neurological, gastrointestinal, orthopedic,
  infectious, emergency, pediatric, gynecological, dermatology, ophthalmology, ent,
  general) among equals, with the confidence \<^verbatim>\<open>min(score / 10.0, 1.0)\<close>. When no category
  scores above zero, it returns the category general, the specialty General Medicine, the
  confidence 1/2 and no raw scores; the priority is the one of the priority scan, whatever
  the categories. \<open>analyze\<close> is total.
\<close>

theorem C4_winner_selection:
  "(let r = analyze lower symptoms language; t = normalized lower symptoms language in
    map fst medical_keywords =
      [''cardiovascular'', ''respiratory'', ''neurological'', ''gastrointestinal'',
       ''orthopedic'', ''infectious'', ''emergency'', ''pediatric'', ''gynecological'',
       ''dermatology'', ''ophthalmology'', ''ent'', ''general'']
    \<and> (raw_scores r \<noteq> [] \<longrightarrow>
         (\<exists>before c ps after. medical_keywords = before @ (c, ps) # after \<and>
            category r = c \<and>
            0 < keywords_loop t ps 0 \<and>
            (\<forall>(c', ps') \<in> set before. keywords_loop t ps' 0 < keywords_loop t ps 0) \<and>
            (\<forall>(c', ps') \<in> set after. keywords_loop t ps' 0 \<le> keywords_loop t ps 0) \<and>
            confidence r = min (float_div (of_int (keywords_loop t ps 0)) 10) 1))
    \<and> (raw_scores r = [] \<longrightarrow>
         category r = ''general'' \<and> specialty r = ''General Medicine'' \<and>
         confidence r = 1 / 2 \<and> priority r = determine_priority t)
    \<and> (raw_scores r = [] \<longleftrightarrow>
         (\<forall>(c, ps) \<in> set medical_keywords. keywords_loop t ps 0 = 0))
    \<and> specialty r =
         (case map_of specialty_rules (category r) of
            Some sp \<Rightarrow> sp
          | None \<Rightarrow> ''General Medicine''))"
proof -
  let ?r = "analyze lower symptoms language" and ?t = "normalized lower symptoms language"
  have e: "raw_scores ?r = [] \<Longrightarrow> score_categories ?t = []"
    by (simp add: analyze_raw_scores)
  have "raw_scores ?r = [] \<longleftrightarrow>
      (\<forall>(c, ps) \<in> set medical_keywords. keywords_loop ?t ps 0 = 0)"
    by (simp add: analyze_raw_scores score_categories_entries positive_entries_empty
        keywords_loop_points)
  moreover have "raw_scores ?r = [] \<longrightarrow>
         category ?r = ''general'' \<and> specialty ?r = ''General Medicine'' \<and>
         confidence ?r = 1 / 2 \<and> priority ?r = determine_priority ?t"
    using analyze_empty [OF e] by (simp add: analyze_priority)
  ultimately show ?thesis
    unfolding Let_def
    using medical_keywords_order analyze_winner_in_table [of lower symptoms language]
      analyze_specialty [of lower symptoms language]
    by blast
qed

text \<open>
  The text "attack fever cough" scores 1 for cardiovascular and 3 for both respiratory and
  infectious: respiratory wins, above the earlier cardiovascular and before the equal
  infectious. The text "zzz qqq" scores nowhere.
\<close>

theorem C4_witness:
  "raw_scores (analyze ascii_lower ''attack fever cough'' ''en'') =
     [(''cardiovascular'', 1), (''respiratory'', 3), (''infectious'', 3)]
   \<and> raw_scores (analyze ascii_lower ''attack fever cough'' ''en'') \<noteq> []
   \<and> (\<exists>before c ps after. medical_keywords = before @ (c, ps) # after \<and>
        category (analyze ascii_lower ''attack fever cough'' ''en'') = c \<and>
        c = ''respiratory'' \<and>
        0 < keywords_loop (normalized ascii_lower ''attack fever cough'' ''en'') ps 0 \<and>
        (\<forall>(c', ps') \<in> set before.
           keywords_loop (normalized ascii_lower ''attack fever cough'' ''en'') ps' 0
             < keywords_loop (normalized ascii_lower ''attack fever cough'' ''en'') ps 0) \<and>
        (\<forall>(c', ps') \<in> set after.
           keywords_loop (normalized ascii_lower ''attack fever cough'' ''en'') ps' 0
             \<le> keywords_loop (normalized ascii_lower ''attack fever cough'' ''en'') ps 0) \<and>
        confidence (analyze ascii_lower ''attack fever cough'' ''en'') =
          min (float_div
                 (of_int (keywords_loop (normalized ascii_lower ''attack fever cough'' ''en'') ps 0))
                 10) 1)
   \<and> confidence (analyze ascii_lower ''attack fever cough'' ''en'') = float_round (3 / 10)
   \<and> raw_scores (analyze ascii_lower ''zzz qqq'' ''en'') = []
   \<and> category (analyze ascii_lower ''zzz qqq'' ''en'') = ''general''
   \<and> specialty (analyze ascii_lower ''zzz qqq'' ''en'') = ''General Medicine''
   \<and> confidence (analyze ascii_lower ''zzz qqq'' ''en'') = 1 / 2"
proof -
  have s: "raw_scores (analyze ascii_lower ''attack fever cough'' ''en'') =
     [(''cardiovascular'', 1), (''respiratory'', 3), (''infectious'', 3)]"
    by (simp add: analyze_raw_scores eval_tie)
  then have a: "raw_scores (analyze ascii_lower ''attack fever cough'' ''en'') \<noteq> []"
    by simp
  have c: "category (analyze ascii_lower ''attack fever cough'' ''en'') = ''respiratory''"
    using analyze_winner(1) [OF eval_tie] by simp
  have "float_round (3 / 10) \<le> 1" by code_simp
  then have f: "confidence (analyze ascii_lower ''attack fever cough'' ''en'')
      = float_round (3 / 10)"
    using analyze_winner(2) [OF eval_tie] by (simp add: float_div_def)
  have z: "raw_scores (analyze ascii_lower ''zzz qqq'' ''en'') = []"
    by (simp add: analyze_raw_scores eval_zzz)
  show ?thesis
    using s a c f z C4_winner_selection [of ascii_lower "''attack fever cough''" "''en''"]
      C4_winner_selection [of ascii_lower "''zzz qqq''" "''en''"]
    unfolding Let_def by blast
qed

text \<open>
  C4 as stated fails: the text "very dizzy" scores in no category, and its priority is
  urgent, not normal.
\<close>

theorem C4_counterexample:
  "raw_scores (analyze ascii_lower ''very dizzy'' ''en'') = []
   \<and> priority (analyze ascii_lower ''very dizzy'' ''en'') = ''urgent''
   \<and> priority (analyze ascii_lower ''very dizzy'' ''en'') \<noteq> ''normal''"
  by (simp add: analyze_raw_scores analyze_priority eval_dizzy eval_dizzy_priority)

text \<open>
  C10. Whatever \<^verbatim>\<open>str.lower\<close> does to the text: when the raw scores are not empty, the
  confidence lies between 1/10 and 1, and is at least the float 0.1. The text "attack"
  matches one word of one phrase and gets the confidence 0.1 (the float nearest to 1/10),
  below the 1/2 of a text that matches nothing.
\<close>

theorem C10_confidence_range:
  "(raw_scores (analyze lower symptoms language) \<noteq> [] \<longrightarrow>
      1 / 10 \<le> confidence (analyze lower symptoms language) \<and>
      float_round (1 / 10) \<le> confidence (analyze lower symptoms language) \<and>
      confidence (analyze lower symptoms language) \<le> 1)
   \<and> raw_scores (analyze ascii_lower ''attack'' ''en'') = [(''cardiovascular'', 1)]
   \<and> confidence (analyze ascii_lower ''attack'' ''en'') = float_round (1 / 10)
   \<and> raw_scores (analyze ascii_lower ''zzz qqq'' ''en'') = []
   \<and> confidence (analyze ascii_lower ''zzz qqq'' ''en'') = 1 / 2
   \<and> confidence (analyze ascii_lower ''attack'' ''en'')
       < confidence (analyze ascii_lower ''zzz qqq'' ''en'')"
proof -
  have range: "1 / 10 \<le> confidence (analyze lower symptoms language) \<and>
      float_round (1 / 10) \<le> confidence (analyze lower symptoms language) \<and>
      confidence (analyze lower symptoms language) \<le> 1"
    if "raw_scores (analyze lower symptoms language) \<noteq> []"
  proof -
    from analyze_winner_in_table [OF that] obtain ps where
      pos: "0 < keywords_loop (normalized lower symptoms language) ps 0"
      and c: "confidence (analyze lower symptoms language) =
        min (float_div (of_int (keywords_loop (normalized lower symptoms language) ps 0)) 10) 1"
      by blast
    show ?thesis unfolding c using confidence_bounds [OF pos] by blast
  qed
  have t: "float_round (1 / 10) \<le> 1" by (simp add: eval_float_tenth)
  have a: "confidence (analyze ascii_lower ''attack'' ''en'') = float_round (1 / 10)"
    using analyze_winner(2) [OF eval_attack] t by (simp add: float_div_def)
  have z: "confidence (analyze ascii_lower ''zzz qqq'' ''en'') = 1 / 2"
    using analyze_empty(2) [OF eval_zzz] .
  have lt: "float_round (1 / 10) < 1 / 2" by (simp add: eval_float_tenth)
  show ?thesis
    using range lt by (simp add: a z analyze_raw_scores eval_attack eval_zzz)
qed

theorem C10_witness:
  "raw_scores (analyze ascii_lower ''attack'' ''en'') \<noteq> []
   \<and> 1 / 10 \<le> confidence (analyze ascii_lower ''attack'' ''en'')
   \<and> confidence (analyze ascii_lower ''attack'' ''en'') \<le> 1"
proof -
  have a: "raw_scores (analyze ascii_lower ''attack'' ''en'') \<noteq> []"
    by (simp add: analyze_raw_scores eval_attack)
  show ?thesis
    using a C10_confidence_range [of ascii_lower "''attack''" "''en''"] by blast
qed

section \<open>Sorting\<close>

lemma mset_list_sort: "mset (list_sort key r xs) = mset xs"
  by (simp add: list_sort_def)

lemma list_sort_stable:
  "filter (\<lambda>y. key y = k) (list_sort key r xs) = filter (\<lambda>y. key y = k) xs"
proof (cases r)
  case True
  have "filter (\<lambda>y. key y = k) (rev (sort_key key (rev xs)))
      = rev (filter (\<lambda>y. key y = k) (sort_key key (rev xs)))"
    by (simp add: rev_filter)
  also have "\<dots> = rev (filter (\<lambda>y. key y = k) (rev xs))"
    by (simp only: sort_key_stable)
  also have "\<dots> = filter (\<lambda>y. key y = k) xs"
    by (simp add: rev_filter)
  finally show ?thesis using True by (simp add: list_sort_def)
next
  case False
  then show ?thesis by (simp add: list_sort_def sort_key_stable)
qed

lemma list_sort_descending:
  "sorted_wrt (\<lambda>a b. key b \<le> key a) (list_sort key True xs)"
proof -
  have "sorted (map key (sort_key key (rev xs)))" by (rule sorted_sort_key)
  then have "sorted_wrt (\<lambda>a b. key a \<le> key b) (sort_key key (rev xs))"
    by (simp add: sorted_map)
  then show ?thesis
    by (simp add: list_sort_def sorted_wrt_rev)
qed

lemma list_sort_ascending:
  "sorted (map key (list_sort key False xs))"
  by (simp add: list_sort_def sorted_sort_key)

lemma sorted_wrt_filter_iff:
  "sorted_wrt R (filter Q ys) \<longleftrightarrow> sorted_wrt (\<lambda>a b. Q a \<and> Q b \<longrightarrow> R a b) ys"
  by (induction ys) auto

lemma list_sort_ties:
  assumes "sorted_wrt (\<lambda>a b. d a \<le> d b) xs"
  shows "sorted_wrt (\<lambda>a b. key a = key b \<longrightarrow> d a \<le> d b) (list_sort key r xs)"
proof -
  let ?ys = "list_sort key r xs"
  have each: "sorted_wrt (\<lambda>a b. key a = k \<and> key b = k \<longrightarrow> d a \<le> d b) ?ys" for k
  proof -
    have "sorted_wrt (\<lambda>a b. d a \<le> d b) (filter (\<lambda>y. key y = k) xs)"
      using assms by (rule sorted_wrt_filter)
    then have "sorted_wrt (\<lambda>a b. d a \<le> d b) (filter (\<lambda>y. key y = k) ?ys)"
      by (simp only: list_sort_stable)
    then show ?thesis by (simp add: sorted_wrt_filter_iff)
  qed
  show ?thesis
    unfolding sorted_wrt_iff_nth_less
  proof (intro allI impI)
    fix i j assume ij: "i < j" "j < length ?ys" and eq: "key (?ys ! i) = key (?ys ! j)"
    from each [of "key (?ys ! j)"] ij eq show "d (?ys ! i) \<le> d (?ys ! j)"
      unfolding sorted_wrt_iff_nth_less by blast
  qed
qed

section \<open>Scores of hospitals\<close>

lemma hospital_score_components: "hospital_score h prio = component_sum h prio"
  by (simp add: hospital_score_def component_sum_def specialty_points_def distance_points_def
      rating_points_def Let_def)

lemma py_round_1_bounds:
  assumes "0 \<le> x" and "x \<le> 105"
  shows "0 \<le> py_round x 1" and "py_round x 1 \<le> 105"
proof -
  let ?k = "round_half_even (x * 10)"
  have "0 \<le> x * 10" using assms by simp
  then have k0: "0 \<le> ?k" by (rule round_half_even_nonneg)
  then have "(0::rat) \<le> of_int ?k / 10" by simp
  then have "0 \<le> float_round (of_int ?k / 10)" by (rule float_round_nonneg)
  then show "0 \<le> py_round x 1" by (simp add: py_round_def)
  have "x * 10 \<le> of_int 1050" using assms by simp
  then have "?k \<le> 1050" by (rule round_half_even_le)
  then have "(of_int ?k :: rat) \<le> 1050"
    by (metis of_int_le_iff of_int_numeral)
  then have "(of_int ?k :: rat) / 10 \<le> of_int 105" by simp
  moreover have "(0::rat) \<le> of_int ?k / 10" using k0 by simp
  moreover have "(105::int) \<le> 2 ^ 52" by simp
  ultimately have "float_round (of_int ?k / 10) \<le> of_int 105"
    by (intro float_round_le_int)
  then show "py_round x 1 \<le> 105" by (simp add: py_round_def)
qed

lemma py_round_1_nearest:
  "\<exists>k::int. py_round x 1 = float_round (of_int k / 10)
     \<and> \<bar>of_int k / 10 - x\<bar> \<le> 1 / 20
     \<and> (\<bar>of_int k / 10 - x\<bar> = 1 / 20 \<longrightarrow> even k)"
proof -
  let ?k = "round_half_even (x * 10)"
  have d: "\<bar>of_int ?k / 10 - x\<bar> = \<bar>of_int ?k - x * 10\<bar> / 10"
  proof -
    have "of_int ?k / 10 - x = (of_int ?k - x * 10) / 10" by simp
    then show ?thesis by (simp only: abs_divide)
  qed
  from round_half_even_nearest [of "x * 10"]
  have n: "\<bar>of_int ?k - x * 10\<bar> \<le> 1 / 2"
    and t: "\<bar>of_int ?k - x * 10\<bar> = 1 / 2 \<longrightarrow> even ?k" by blast+
  have "\<bar>of_int ?k / 10 - x\<bar> \<le> 1 / 20" unfolding d using n by simp
  moreover have "\<bar>of_int ?k / 10 - x\<bar> = 1 / 20 \<longrightarrow> even ?k" unfolding d using t by simp
  moreover have "py_round x 1 = float_round (of_int ?k / 10)" by (simp add: py_round_def)
  ultimately show ?thesis by blast
qed

lemma float_add_range:
  assumes "0 \<le> x" and "x \<le> of_int a" and "0 \<le> y" and "y \<le> of_int b" and "a + b \<le> 2 ^ 52"
  shows "0 \<le> float_add x y" and "float_add x y \<le> of_int (a + b)"
proof -
  have "0 \<le> x + y" using assms by simp
  then show "0 \<le> float_add x y" unfolding float_add_def by (rule float_round_nonneg)
  have "x + y \<le> of_int (a + b)" using assms by simp
  with \<open>0 \<le> x + y\<close> show "float_add x y \<le> of_int (a + b)"
    unfolding float_add_def using assms(5) by (intro float_round_le_int)
qed

lemma rating_points_range:
  assumes "0 \<le> r" and "r \<le> 5"
  shows "0 \<le> rating_points r" and "rating_points r \<le> 20"
proof -
  have q0: "0 \<le> r / 5" using assms by simp
  have "r / 5 \<le> of_int 1" using assms by simp
  moreover have "(1::int) \<le> 2 ^ 52" by simp
  ultimately have q1: "float_div r 5 \<le> of_int 1"
    unfolding float_div_def using q0 by (intro float_round_le_int)
  have q2: "0 \<le> float_div r 5" unfolding float_div_def using q0 by (rule float_round_nonneg)
  have p0: "0 \<le> float_div r 5 * 20" using q2 by simp
  then show "0 \<le> rating_points r"
    unfolding rating_points_def float_mul_def by (rule float_round_nonneg)
  have "float_div r 5 * 20 \<le> of_int 20" using q1 by simp
  moreover have "(20::int) \<le> 2 ^ 52" by simp
  ultimately have "float_round (float_div r 5 * 20) \<le> of_int 20"
    using p0 by (intro float_round_le_int)
  then show "rating_points r \<le> 20" by (simp add: rating_points_def float_mul_def)
qed

lemma components_range:
  assumes "0 \<le> rating h" and "rating h \<le> 5"
  shows "0 \<le> component_sum h prio" and "component_sum h prio \<le> 105"
proof -
  define ready where "ready \<longleftrightarrow> prio = ''urgent'' \<or> prio = ''critical''"
  define b where "b = specialty_points h + distance_points (distance_km h)"
  define s1 where "s1 = float_add b (rating_points (rating h))"
  define s2 where "s2 = (if ready \<and> has_emergency h then float_add s1 10 else s1)"
  define s3 where "s3 = (if ready \<and> has_ambulance h then float_add s2 5 else s2)"
  have b: "0 \<le> b" "b \<le> of_int 70"
    by (simp_all add: b_def specialty_points_def distance_points_def)
  have r: "0 \<le> rating_points (rating h)" "rating_points (rating h) \<le> of_int 20"
    using rating_points_range [OF assms] by simp_all
  have s1: "0 \<le> s1" "s1 \<le> of_int 90"
    unfolding s1_def using float_add_range [OF b r] by simp_all
  have ten: "(0::rat) \<le> 10" "(10::rat) \<le> of_int 10" by simp_all
  have five: "(0::rat) \<le> 5" "(5::rat) \<le> of_int 5" by simp_all
  have s2: "0 \<le> s2" "s2 \<le> of_int 100"
  proof -
    have "0 \<le> s2 \<and> s2 \<le> of_int 100"
    proof (cases "ready \<and> has_emergency h")
      case True
      then have "s2 = float_add s1 10" by (simp add: s2_def)
      then show ?thesis using float_add_range [OF s1 ten] by simp
    next
      case False
      then have "s2 = s1" unfolding s2_def by auto
      then show ?thesis using s1 by simp
    qed
    then show "0 \<le> s2" "s2 \<le> of_int 100" by blast+
  qed
  have s3: "0 \<le> s3 \<and> s3 \<le> 105"
  proof (cases "ready \<and> has_ambulance h")
    case True
    then have "s3 = float_add s2 5" by (simp add: s3_def)
    then show ?thesis using float_add_range [OF s2 five] by simp
  next
    case False
    then have "s3 = s2" unfolding s3_def by auto
    then show ?thesis using s2 by simp
  qed
  have "component_sum h prio = s3"
    by (simp add: component_sum_def Let_def s3_def s2_def s1_def b_def ready_def)
  with s3 show "0 \<le> component_sum h prio" and "component_sum h prio \<le> 105" by simp_all
qed

lemma set_score_hospitals:
  "set (score_hospitals hs a) = set_total_score (priority a) ` set hs"
proof -
  have "set (score_hospitals hs a) = set_mset (mset (score_hospitals hs a))" by simp
  also have "\<dots> = set_mset (mset (map (set_total_score (priority a)) hs))"
    by (simp only: score_hospitals_def Let_def mset_list_sort)
  finally show ?thesis by simp
qed

lemma set_total_score_fields:
  "distance_km (set_total_score prio h) = distance_km h"
  "rating (set_total_score prio h) = rating h"
  "component_sum (set_total_score prio h) p = component_sum h p"
  "total_score (set_total_score prio h) = Some (py_round (hospital_score h prio) 1)"
  "total_score_key (set_total_score prio h) = py_round (hospital_score h prio) 1"
  "(set_total_score prio h)\<lparr>total_score := None\<rparr> = h\<lparr>total_score := None\<rparr>"
  by (simp_all add: set_total_score_def component_sum_def specialty_points_def
      total_score_key_def)

section \<open>Claims on the ranking of hospitals\<close>

text \<open>
  C2. When the input of \<open>score_hospitals\<close> is sorted by ascending distance, its output is
  sorted by total score, greatest first, and of two hospitals with the same total score the
  one that comes first has the smaller or equal distance: the sort is stable and its only
  key is the total score.
\<close>

theorem C2_score_order:
  assumes "sorted (map distance_km hospitals)"
  shows "sorted_wrt
     (\<lambda>a b. \<exists>sa sb. total_score a = Some sa \<and> total_score b = Some sb \<and> sb \<le> sa \<and>
        (sa = sb \<longrightarrow> distance_km a \<le> distance_km b))
     (score_hospitals hospitals analysis)"
proof -
  let ?f = "set_total_score (priority analysis)"
  let ?out = "score_hospitals hospitals analysis"
  have out: "?out = list_sort total_score_key True (map ?f hospitals)"
    by (simp add: score_hospitals_def)
  from assms have "sorted_wrt (\<lambda>a b. distance_km a \<le> distance_km b) hospitals"
    by (simp only: sorted_map)
  then have "sorted_wrt (\<lambda>a b. distance_km a \<le> distance_km b) (map ?f hospitals)"
    by (simp add: sorted_wrt_map set_total_score_fields)
  then have ties: "sorted_wrt (\<lambda>a b. total_score_key a = total_score_key b \<longrightarrow>
        distance_km a \<le> distance_km b) ?out"
    unfolding out by (rule list_sort_ties)
  have desc: "sorted_wrt (\<lambda>a b. total_score_key b \<le> total_score_key a) ?out"
    unfolding out by (rule list_sort_descending)
  have some: "\<exists>s. total_score x = Some s \<and> total_score_key x = s" if "x \<in> set ?out" for x
    using that by (auto simp: set_score_hospitals set_total_score_fields)
  show ?thesis
    unfolding sorted_wrt_iff_nth_less
  proof (intro allI impI)
    fix i j assume ij: "i < j" "j < length ?out"
    then have "?out ! i \<in> set ?out" "?out ! j \<in> set ?out" by simp_all
    then obtain sa sb where
      a: "total_score (?out ! i) = Some sa" "total_score_key (?out ! i) = sa" and
      b: "total_score (?out ! j) = Some sb" "total_score_key (?out ! j) = sb"
      using some by blast
    from desc ij have "total_score_key (?out ! j) \<le> total_score_key (?out ! i)"
      unfolding sorted_wrt_iff_nth_less by blast
    moreover from ties ij have "total_score_key (?out ! i) = total_score_key (?out ! j) \<longrightarrow>
        distance_km (?out ! i) \<le> distance_km (?out ! j)"
      unfolding sorted_wrt_iff_nth_less by blast
    ultimately show "\<exists>sa sb. total_score (?out ! i) = Some sa \<and>
        total_score (?out ! j) = Some sb \<and> sb \<le> sa \<and>
        (sa = sb \<longrightarrow> distance_km (?out ! i) \<le> distance_km (?out ! j))"
      using a b by simp
  qed
qed

lemma eval_sample_order:
  "map row_id (score_hospitals [sample_dict 1 1 4, sample_dict 2 2 5, sample_dict 3 3 4]
      (sample_analysis ''normal'')) = [2, 1, 3]
   \<and> map total_score (score_hospitals [sample_dict 1 1 4, sample_dict 2 2 5, sample_dict 3 3 4]
      (sample_analysis ''normal'')) = [Some 90, Some 86, Some 86]"
  by code_simp

theorem C2_witness:
  "sorted (map distance_km [sample_dict 1 1 4, sample_dict 2 2 5, sample_dict 3 3 4])
   \<and> sorted_wrt
     (\<lambda>a b. \<exists>sa sb. total_score a = Some sa \<and> total_score b = Some sb \<and> sb \<le> sa \<and>
        (sa = sb \<longrightarrow> distance_km a \<le> distance_km b))
     (score_hospitals [sample_dict 1 1 4, sample_dict 2 2 5, sample_dict 3 3 4]
        (sample_analysis ''normal''))
   \<and> map row_id (score_hospitals [sample_dict 1 1 4, sample_dict 2 2 5, sample_dict 3 3 4]
      (sample_analysis ''normal'')) = [2, 1, 3]"
proof -
  have h: "sorted (map distance_km [sample_dict 1 1 4, sample_dict 2 2 5, sample_dict 3 3 4])"
    by (simp add: sample_dict_def)
  show ?thesis
    using h C2_score_order [OF h, of "sample_analysis ''normal''"] eval_sample_order
    by blast
qed

text \<open>
  C7 (as amended). The total score that \<open>score_hospitals\<close> gives a hospital is
  \<open>component_sum\<close>, the floating-point sum of the points for the specialty (40 for a match,
  else 20 with General Medicine among the specialties, else 0), for the distance (30 up to
  5 km, 25 up to 10, 15 up to 20, 10 up to 30, else 5), for the rating (rating / 5.0 * 20)
  and, for an urgent or critical priority only, for the readiness (10 for an emergency
  room, then 5 for an ambulance), rounded to one decimal: it is the float nearest to
  \<open>k / 10\<close> for the integer \<open>k\<close> with \<open>k / 10\<close> nearest to the sum, the even one of two that
  are equally near. For a rating between 0 and 5 it lies between 0 and 105. A hospital at
  4.9 km with a specialty match and the rating 4.5 gets 88 under the priority normal.
\<close>

theorem C7_total_score:
  "(\<forall>x \<in> set (score_hospitals hospitals analysis).
      (\<exists>k::int. total_score x = Some (float_round (of_int k / 10))
         \<and> \<bar>of_int k / 10 - component_sum x (priority analysis)\<bar> \<le> 1 / 20
         \<and> (\<bar>of_int k / 10 - component_sum x (priority analysis)\<bar> = 1 / 20 \<longrightarrow> even k))
      \<and> (0 \<le> rating x \<and> rating x \<le> 5 \<longrightarrow>
           (\<exists>s. total_score x = Some s \<and> 0 \<le> s \<and> s \<le> 105)))
   \<and> (distance_km h = float_round (49 / 10) \<and> specialty_match h \<and> rating h = 9 / 2
        \<and> priority analysis = ''normal'' \<longrightarrow>
        map total_score (score_hospitals [h] analysis) = [Some 88])"
proof -
  have each: "(\<exists>k::int. total_score x = Some (float_round (of_int k / 10))
         \<and> \<bar>of_int k / 10 - component_sum x (priority analysis)\<bar> \<le> 1 / 20
         \<and> (\<bar>of_int k / 10 - component_sum x (priority analysis)\<bar> = 1 / 20 \<longrightarrow> even k))
      \<and> (0 \<le> rating x \<and> rating x \<le> 5 \<longrightarrow>
           (\<exists>s. total_score x = Some s \<and> 0 \<le> s \<and> s \<le> 105))"
    if "x \<in> set (score_hospitals hospitals analysis)" for x
  proof -
    from that obtain y where x: "x = set_total_score (priority analysis) y"
      by (auto simp: set_score_hospitals)
    have cs: "component_sum x (priority analysis) = component_sum y (priority analysis)"
      by (simp add: x set_total_score_fields)
    have ts: "total_score x = Some (py_round (component_sum y (priority analysis)) 1)"
      by (simp add: x set_total_score_fields hospital_score_components)
    have "\<exists>k::int. total_score x = Some (float_round (of_int k / 10))
         \<and> \<bar>of_int k / 10 - component_sum x (priority analysis)\<bar> \<le> 1 / 20
         \<and> (\<bar>of_int k / 10 - component_sum x (priority analysis)\<bar> = 1 / 20 \<longrightarrow> even k)"
      unfolding cs ts
      using py_round_1_nearest [of "component_sum y (priority analysis)"] by simp
    moreover have "0 \<le> py_round (component_sum y (priority analysis)) 1
        \<and> py_round (component_sum y (priority analysis)) 1 \<le> 105"
      if "0 \<le> rating x \<and> rating x \<le> 5"
    proof -
      from that have r: "0 \<le> rating y" "rating y \<le> 5"
        by (simp_all add: x set_total_score_fields)
      show ?thesis
        using py_round_1_bounds [OF components_range [OF r]] by blast
    qed
    ultimately show ?thesis using ts by simp
  qed
  have example: "map total_score (score_hospitals [h] analysis) = [Some 88]"
    if c: "distance_km h = float_round (49 / 10) \<and> specialty_match h \<and> rating h = 9 / 2
        \<and> priority analysis = ''normal''"
  proof -
    from c have d: "distance_km h = float_round (49 / 10)" and m: "specialty_match h"
      and r: "rating h = 9 / 2" and p: "priority analysis = ''normal''" by simp_all
    have near: "float_round (49 / 10) \<le> 5" by code_simp
    have sum: "float_add 70 (float_mul (float_div (9 / 2) 5) 20) = 88" by code_simp
    have "hospital_score h ''normal'' = 88"
      by (simp add: hospital_score_def Let_def d m r near sum)
    moreover have "py_round 88 1 = 88" by code_simp
    ultimately show ?thesis
      by (simp add: score_hospitals_def list_sort_def set_total_score_def p)
  qed
  show ?thesis using each example by blast
qed

text \<open>
  The first hospital is the one of the example. The second has the rating 4.0625: its
  components sum to 86.25, halfway between 86.2 and 86.3, and its total score is the float
  86.2, of the even \<open>k = 862\<close>.
\<close>

theorem C7_witness:
  "distance_km (sample_dict 1 (float_round (49 / 10)) (9 / 2)) = float_round (49 / 10)
   \<and> specialty_match (sample_dict 1 (float_round (49 / 10)) (9 / 2))
   \<and> rating (sample_dict 1 (float_round (49 / 10)) (9 / 2)) = 9 / 2
   \<and> priority (sample_analysis ''normal'') = ''normal''
   \<and> map total_score (score_hospitals [sample_dict 1 (float_round (49 / 10)) (9 / 2)]
        (sample_analysis ''normal'')) = [Some 88]
   \<and> list_all
        (\<lambda>x. 0 \<le> rating x \<and> rating x \<le> 5 \<and>
           (\<exists>s. total_score x = Some s \<and> 0 \<le> s \<and> s \<le> 105))
        (score_hospitals [sample_dict 1 (float_round (49 / 10)) (9 / 2)]
           (sample_analysis ''normal''))
   \<and> list_all
        (\<lambda>x. component_sum x ''normal'' = 345 / 4 \<and>
           total_score x = Some (float_round (862 / 10)))
        (score_hospitals [sample_dict 2 (float_round (49 / 10)) (65 / 16)]
           (sample_analysis ''normal''))"
proof -
  let ?A = "sample_dict 1 (float_round (49 / 10)) (9 / 2)"
  let ?B = "sample_dict 2 (float_round (49 / 10)) (65 / 16)"
  let ?N = "sample_analysis ''normal''"
  have p: "priority ?N = ''normal''" by (simp add: sample_analysis_def)
  have a: "distance_km ?A = float_round (49 / 10) \<and> specialty_match ?A
     \<and> rating ?A = 9 / 2 \<and> priority ?N = ''normal''"
    by (simp add: sample_dict_def sample_analysis_def)
  have r: "\<forall>x \<in> set (score_hospitals [?A] ?N). 0 \<le> rating x \<and> rating x \<le> 5"
    by (simp add: set_score_hospitals set_total_score_fields sample_dict_def)
  have "\<forall>x \<in> set (score_hospitals [?A] ?N). 0 \<le> rating x \<and> rating x \<le> 5 \<and>
           (\<exists>s. total_score x = Some s \<and> 0 \<le> s \<and> s \<le> 105)"
    using r C7_total_score [of "[?A]" ?N ?A] by blast
  then have l: "list_all
        (\<lambda>x. 0 \<le> rating x \<and> rating x \<le> 5 \<and>
           (\<exists>s. total_score x = Some s \<and> 0 \<le> s \<and> s \<le> 105))
        (score_hospitals [?A] ?N)"
    by (simp only: list_all_iff)
  have e: "map total_score (score_hospitals [?A] ?N) = [Some 88]"
    using a C7_total_score [of "[?A]" ?N ?A] by blast
  have sumB: "component_sum ?B ''normal'' = 345 / 4" by code_simp
  have "component_sum x ''normal'' = 345 / 4 \<and> total_score x = Some (float_round (862 / 10))"
    if x: "x \<in> set (score_hospitals [?B] ?N)" for x
  proof -
    from x have "x = set_total_score ''normal'' ?B"
      by (simp add: set_score_hospitals p)
    then have cs: "component_sum x ''normal'' = 345 / 4"
      by (simp add: set_total_score_fields sumB)
    from x C7_total_score [of "[?B]" ?N ?A] obtain k :: int where
      t: "total_score x = Some (float_round (of_int k / 10))"
      and n: "\<bar>of_int k / 10 - component_sum x (priority ?N)\<bar> \<le> 1 / 20"
      and ev: "\<bar>of_int k / 10 - component_sum x (priority ?N)\<bar> = 1 / 20 \<longrightarrow> even k"
      by blast
    from n have n': "\<bar>(of_int k :: rat) / 10 - 345 / 4\<bar> \<le> 1 / 20" by (simp only: p cs)
    from ev have ev': "\<bar>(of_int k :: rat) / 10 - 345 / 4\<bar> = 1 / 20 \<longrightarrow> even k"
      by (simp only: p cs)
    from n' have "(of_int k :: rat) / 10 - 345 / 4 \<le> 1 / 20"
      and "- (1 / 20) \<le> (of_int k :: rat) / 10 - 345 / 4"
      by (simp_all only: abs_le_iff) linarith
    then have "(of_int k :: rat) \<le> 863" "(862 :: rat) \<le> of_int k" by linarith+
    then have "k \<le> 863" "862 \<le> k" by simp_all
    then consider "k = 862" | "k = 863" by linarith
    then have "k = 862"
    proof cases
      case 1
      then show ?thesis .
    next
      case 2
      then have "\<bar>(of_int k :: rat) / 10 - 345 / 4\<bar> = 1 / 20" by simp
      with ev' have "even k" by blast
      with 2 show ?thesis by simp
    qed
    with t have "total_score x = Some (float_round (862 / 10))" by simp
    with cs show ?thesis by blast
  qed
  then have "\<forall>x \<in> set (score_hospitals [?B] ?N).
      component_sum x ''normal'' = 345 / 4 \<and> total_score x = Some (float_round (862 / 10))"
    by blast
  then have b: "list_all
        (\<lambda>x. component_sum x ''normal'' = 345 / 4 \<and>
           total_score x = Some (float_round (862 / 10)))
        (score_hospitals [?B] ?N)"
    by (simp only: list_all_iff)
  show ?thesis using a l e b by (intro conjI) blast+
qed

text \<open>
  C7 as stated fails. For a hospital at 4.9 km with a specialty match and the rating
  4.0875, the floats nearest to these numbers, the program gives under the priority normal
  the total score 86.3: the points of the rating are the float just below 16.35, and the
  sum the float just below 86.35. The sum of the components in exact arithmetic is above
  86.35 and rounds to 86.4.
\<close>

theorem C7_counterexample:
  "map total_score
     (score_hospitals [sample_dict 1 (float_round (49 / 10)) (float_round (327 / 80))]
        (sample_analysis ''normal''))
     = [Some (float_round (863 / 10))]
   \<and> of_int (round_half_even ((40 + 30 + float_round (327 / 80) / 5 * 20) * 10)) / 10
       = (864 / 10 :: rat)
   \<and> float_round (863 / 10) < 864 / 10
   \<and> float_round (863 / 10) < float_round (864 / 10)"
  by code_simp

text \<open>
  C9. The output of \<open>score_hospitals\<close> is a permutation of its input in which every
  hospital has gained its total score and is unchanged in every other field.
\<close>

theorem C9_score_permutation:
  "mset (score_hospitals hospitals analysis) =
     mset (map (\<lambda>h. h\<lparr>total_score := Some (py_round (hospital_score h (priority analysis)) 1)\<rparr>)
        hospitals)
   \<and> mset (map (\<lambda>h. h\<lparr>total_score := None\<rparr>) (score_hospitals hospitals analysis)) =
       mset (map (\<lambda>h. h\<lparr>total_score := None\<rparr>) hospitals)
   \<and> length (score_hospitals hospitals analysis) = length hospitals"
proof -
  let ?f = "set_total_score (priority analysis)"
  have m: "mset (score_hospitals hospitals analysis) = mset (map ?f hospitals)"
    by (simp only: score_hospitals_def Let_def mset_list_sort)
  have f: "?f = (\<lambda>h. h\<lparr>total_score := Some (py_round (hospital_score h (priority analysis)) 1)\<rparr>)"
    by (rule ext) (simp add: set_total_score_def)
  have "mset (map (\<lambda>h. h\<lparr>total_score := None\<rparr>) (score_hospitals hospitals analysis)) =
      image_mset (\<lambda>h. h\<lparr>total_score := None\<rparr>) (mset (score_hospitals hospitals analysis))"
    by simp
  also have "\<dots> = image_mset (\<lambda>h. h\<lparr>total_score := None\<rparr>) (mset (map ?f hospitals))"
    by (simp only: m)
  also have "\<dots> = mset (map (\<lambda>h. h\<lparr>total_score := None\<rparr>) hospitals)"
    by (simp add: set_total_score_fields multiset.map_comp comp_def)
  finally have e: "mset (map (\<lambda>h. h\<lparr>total_score := None\<rparr>) (score_hospitals hospitals analysis)) =
      mset (map (\<lambda>h. h\<lparr>total_score := None\<rparr>) hospitals)" .
  have "size (mset (score_hospitals hospitals analysis)) = size (mset (map ?f hospitals))"
    by (simp only: m)
  then have l: "length (score_hospitals hospitals analysis) = length hospitals" by simp
  show ?thesis using m e l unfolding f by blast
qed

section \<open>Finding the hospitals nearby\<close>

lemma py_int_max_floor: "max (py_int y) 5 = max 5 \<lfloor>y\<rfloor>"
proof (cases "0 \<le> y")
  case True
  then show ?thesis by (simp add: py_int_def max.commute)
next
  case False
  then have "\<lfloor>y\<rfloor> \<le> 5" by (simp add: floor_le_iff)
  then have r: "max 5 \<lfloor>y\<rfloor> = 5" by (rule max_absorb1)
  have "0 \<le> \<lfloor>- y\<rfloor>" using False by simp
  then have "- \<lfloor>- y\<rfloor> \<le> 5" by linarith
  then have l: "max (- \<lfloor>- y\<rfloor>) 5 = 5" by (rule max_absorb2)
  have "py_int y = - \<lfloor>- y\<rfloor>" using False by (simp add: py_int_def)
  then show ?thesis using l r by simp
qed

lemma calculate_travel_time_floor:
  "calculate_travel_time x = max 5 \<lfloor>float_mul (float_div x 25) 60\<rfloor>"
  unfolding calculate_travel_time_def Let_def by (rule py_int_max_floor)

lemma hospital_dict_of_fields:
  "travel_time_minutes (hospital_dict_of lower sp r x) =
     max 5 \<lfloor>float_mul (float_div x 25) 60\<rfloor>"
  "distance_km (hospital_dict_of lower sp r x) = py_round x 2"
  "row_id (hospital_dict_of lower sp r x) = row_id r"
  "total_score (hospital_dict_of lower sp r x) = None"
  by (simp_all add: hospital_dict_of_def Let_def calculate_travel_time_floor)

lemma nearby_loop_result:
  assumes "\<forall>r \<in> set rows. geodesic u (latitude r, longitude r) = Inr (d r)"
  shows "nearby_loop lower geodesic u sp maxd rows acc =
     Inr (acc @ map (\<lambda>r. hospital_dict_of lower sp r (d r)) (filter (\<lambda>r. d r \<le> maxd) rows))"
  using assms
proof (induction rows arbitrary: acc)
  case Nil
  then show ?case by simp
next
  case (Cons r rows)
  then have g: "geodesic u (latitude r, longitude r) = Inr (d r)" by simp
  from Cons have ih: "nearby_loop lower geodesic u sp maxd rows acc' =
     Inr (acc' @ map (\<lambda>r. hospital_dict_of lower sp r (d r)) (filter (\<lambda>r. d r \<le> maxd) rows))"
    for acc' by simp
  show ?case by (simp add: g ih Let_def)
qed

lemma nearby_loop_error:
  assumes "r \<in> set rows" and "geodesic u (latitude r, longitude r) = Inl e"
  shows "\<exists>e'. nearby_loop lower geodesic u sp maxd rows acc = Inl e'"
  using assms
proof (induction rows arbitrary: acc)
  case Nil
  then show ?case by simp
next
  case (Cons q rows)
  show ?case
  proof (cases "geodesic u (latitude q, longitude q)")
    case (Inl e0)
    then show ?thesis by (simp add: Let_def)
  next
    case (Inr x)
    with Cons.prems have "r \<in> set rows" by auto
    with Cons.IH Cons.prems(2) Inr show ?thesis by (simp add: Let_def)
  qed
qed

text \<open>
  C6 (as amended). Whatever \<^verbatim>\<open>str.lower\<close> does: when \<open>geodesic\<close> gives a distance for every
  candidate, \<open>find_nearby_hospitals\<close> returns exactly the candidates whose distance as
  computed is at most \<open>max_distance_km\<close> (one at exactly that distance is kept, one beyond
  it is dropped), sorted by the stored distance; each has a travel time of at least 5
  minutes, which is the greater of 5 and the floor of \<open>t\<close>, where \<open>t\<close> is the distance as
  computed, divided by 25 and multiplied by 60 in floating-point arithmetic: the quotient
  is rounded to a float, and so is the product.
\<close>

theorem C6_nearby_within_radius:
  assumes "\<forall>r \<in> set (query_hospitals table prio).
     geodesic (lat, lon) (latitude r, longitude r) = Inr (d r)"
  shows "\<exists>out. find_nearby_hospitals lower geodesic table lat lon sp prio max_distance_km = Inr out
     \<and> mset out =
         mset (map (\<lambda>r. hospital_dict_of lower sp r (d r))
           (filter (\<lambda>r. d r \<le> max_distance_km) (query_hospitals table prio)))
     \<and> sorted (map distance_km out)
     \<and> (\<forall>h \<in> set out. 5 \<le> travel_time_minutes h)
     \<and> (\<forall>r x. travel_time_minutes (hospital_dict_of lower sp r x) =
            max 5 \<lfloor>float_round (float_round (x / 25) * 60)\<rfloor>)"
proof -
  let ?cands = "query_hospitals table prio"
  let ?kept = "map (\<lambda>r. hospital_dict_of lower sp r (d r))
           (filter (\<lambda>r. d r \<le> max_distance_km) ?cands)"
  let ?out = "list_sort distance_km False ?kept"
  have loop: "nearby_loop lower geodesic (lat, lon) sp max_distance_km ?cands [] = Inr ?kept"
    using assms
      nearby_loop_result [where rows = "?cands" and geodesic = geodesic and u = "(lat, lon)"
        and d = d and sp = sp and maxd = max_distance_km and acc = "[]" and lower = lower]
    by simp
  have res: "find_nearby_hospitals lower geodesic table lat lon sp prio max_distance_km
      = Inr ?out"
    by (simp add: find_nearby_hospitals_def Let_def loop)
  have m: "mset ?out = mset ?kept" by (rule mset_list_sort)
  have s: "sorted (map distance_km ?out)" by (rule list_sort_ascending)
  have "set ?out = set ?kept"
    using m by (rule mset_eq_setD)
  then have t: "\<forall>h \<in> set ?out. 5 \<le> travel_time_minutes h"
    by (auto simp: hospital_dict_of_fields)
  show ?thesis
    using res m s t by (simp add: hospital_dict_of_fields float_mul_def float_div_def)
qed

text \<open>
  Of three hospitals at 50, 51 and 10 km, the radius of 50 km keeps the first, at exactly
  the radius, and the third; their travel times are 120 and 24 minutes.
\<close>

theorem C6_witness:
  "list_all
     (\<lambda>r. sample_geodesic (0, 0) (latitude r, longitude r) =
        Inr (\<bar>latitude r\<bar> + \<bar>longitude r\<bar>))
     (query_hospitals [sample_row 1 0 50, sample_row 2 0 51, sample_row 3 0 10] ''normal'')
   \<and> (\<exists>out. find_nearby_hospitals ascii_lower sample_geodesic
          [sample_row 1 0 50, sample_row 2 0 51, sample_row 3 0 10] 0 0 None ''normal'' 50
        = Inr out
      \<and> map row_id out = [3, 1]
      \<and> map travel_time_minutes out = [24, 120]
      \<and> (\<forall>h \<in> set out. 5 \<le> travel_time_minutes h))"
proof -
  let ?table = "[sample_row 1 0 50, sample_row 2 0 51, sample_row 3 0 10]"
  have h: "\<forall>r \<in> set (query_hospitals ?table ''normal'').
      sample_geodesic (0, 0) (latitude r, longitude r) = Inr (\<bar>latitude r\<bar> + \<bar>longitude r\<bar>)"
    by (simp add: sample_geodesic_def)
  from h C6_nearby_within_radius [where table = "?table" and prio = "''normal''"
      and geodesic = sample_geodesic and lat = 0 and lon = 0
      and d = "\<lambda>r. \<bar>latitude r\<bar> + \<bar>longitude r\<bar>" and sp = None
      and max_distance_km = 50 and lower = ascii_lower]
  obtain out where
    r: "find_nearby_hospitals ascii_lower sample_geodesic ?table 0 0 None ''normal'' 50 = Inr out"
    and t: "\<forall>h \<in> set out. 5 \<le> travel_time_minutes h"
    by blast
  have r10: "py_round 10 2 = 10" and r50: "py_round 50 2 = 50" by code_simp+
  have e: "find_nearby_hospitals ascii_lower sample_geodesic ?table 0 0 None ''normal'' 50 =
      Inr [hospital_dict_of ascii_lower None (sample_row 3 0 10) 10,
           hospital_dict_of ascii_lower None (sample_row 1 0 50) 50]"
    by (simp add: find_nearby_hospitals_def query_hospitals_def Let_def sample_geodesic_def
        sample_row_def list_sort_def hospital_dict_of_fields r10 r50)
  from r e have out: "out = [hospital_dict_of ascii_lower None (sample_row 3 0 10) 10,
           hospital_dict_of ascii_lower None (sample_row 1 0 50) 50]" by simp
  have i: "map row_id out = [3, 1]"
    by (simp add: out hospital_dict_of_fields sample_row_def)
  have t10: "calculate_travel_time 10 = 24" and t50: "calculate_travel_time 50 = 120"
    by code_simp+
  have m: "map travel_time_minutes out = [24, 120]"
    by (simp add: out hospital_dict_of_def Let_def t10 t50)
  have "\<exists>out. find_nearby_hospitals ascii_lower sample_geodesic ?table 0 0 None ''normal'' 50
        = Inr out
      \<and> map row_id out = [3, 1]
      \<and> map travel_time_minutes out = [24, 120]
      \<and> (\<forall>h \<in> set out. 5 \<le> travel_time_minutes h)"
  proof (intro exI conjI)
    show "find_nearby_hospitals ascii_lower sample_geodesic ?table 0 0 None ''normal'' 50
        = Inr out"
      by (rule r)
    show "map row_id out = [3, 1]" by (rule i)
    show "map travel_time_minutes out = [24, 120]" by (rule m)
    show "\<forall>h \<in> set out. 5 \<le> travel_time_minutes h" by (rule t)
  qed
  moreover have "list_all
     (\<lambda>r. sample_geodesic (0, 0) (latitude r, longitude r) =
        Inr (\<bar>latitude r\<bar> + \<bar>longitude r\<bar>))
     (query_hospitals ?table ''normal'')"
    using h by (simp only: list_all_iff)
  ultimately show ?thesis by (intro conjI)
qed

text \<open>
  C6 as stated fails in the travel time. A hospital at 51.25 km is returned with a travel
  time of 122 minutes: 51.25 / 25 is rounded to the float just below 2.05, and its product
  with 60 to the float just below 123. In exact arithmetic 51.25 / 25 * 60 is 123.
\<close>

theorem C6_counterexample:
  "find_nearby_hospitals ascii_lower sample_geodesic [sample_row 1 0 (205 / 4)] 0 0 None
        ''normal'' 60
     = Inr [hospital_dict_of ascii_lower None (sample_row 1 0 (205 / 4)) (205 / 4)]
   \<and> travel_time_minutes (hospital_dict_of ascii_lower None (sample_row 1 0 (205 / 4)) (205 / 4))
       = 122
   \<and> max 5 \<lfloor>(205 / 4 :: rat) / 25 * 60\<rfloor> = 123"
proof -
  have t: "calculate_travel_time (205 / 4) = 122" by code_simp
  have f: "max 5 \<lfloor>(205 / 4 :: rat) / 25 * 60\<rfloor> = 123" by simp
  have "find_nearby_hospitals ascii_lower sample_geodesic [sample_row 1 0 (205 / 4)] 0 0 None
        ''normal'' 60
     = Inr [hospital_dict_of ascii_lower None (sample_row 1 0 (205 / 4)) (205 / 4)]"
    by (simp add: find_nearby_hospitals_def query_hospitals_def Let_def sample_geodesic_def
        sample_row_def list_sort_def)
  moreover have "travel_time_minutes
      (hospital_dict_of ascii_lower None (sample_row 1 0 (205 / 4)) (205 / 4)) = 122"
    by (simp add: hospital_dict_of_def Let_def t)
  ultimately show ?thesis using f by (intro conjI)
qed

text \<open>
  The radius is compared with the distance as computed, and the dict stores the distance
  rounded to two decimals: a hospital at 49.996 km (the float nearest to it) is within a
  radius of 49.996 km and is returned with the stored distance 50.
\<close>

lemma stored_distance_is_rounded:
  "find_nearby_hospitals ascii_lower sample_geodesic
        [sample_row 1 0 (float_round (49996 / 1000))] 0 0 None ''normal''
        (float_round (49996 / 1000))
     = Inr [hospital_dict_of ascii_lower None (sample_row 1 0 (float_round (49996 / 1000)))
              (float_round (49996 / 1000))]
   \<and> distance_km (hospital_dict_of ascii_lower None
         (sample_row 1 0 (float_round (49996 / 1000))) (float_round (49996 / 1000))) = 50
   \<and> float_round (49996 / 1000) < 50"
proof -
  define x where "x = float_round (49996 / 1000)"
  have r: "py_round x 2 = 50" unfolding x_def by code_simp
  have l: "x < 50" unfolding x_def by code_simp
  have p: "0 \<le> x" unfolding x_def by code_simp
  have "find_nearby_hospitals ascii_lower sample_geodesic [sample_row 1 0 x] 0 0 None
        ''normal'' x
     = Inr [hospital_dict_of ascii_lower None (sample_row 1 0 x) x]"
    using p
    by (simp add: find_nearby_hospitals_def query_hospitals_def Let_def sample_geodesic_def
        sample_row_def list_sort_def)
  moreover have "distance_km (hospital_dict_of ascii_lower None (sample_row 1 0 x) x) = 50"
    by (simp add: hospital_dict_of_fields r)
  ultimately show ?thesis using l unfolding x_def by (intro conjI)
qed

end
